theory Spec2Isabelle
  imports Main "HOL-Library.Multiset"
begin

section \<open>Values exchanged with the backend\<close>

text \<open>
  Identifiers are strings. A \<open>File\<close> of the browser is opaque to the access layer, so it
  is a string standing for its content. A URL is kept symbolic: the SDK builds it locally
  from its arguments.
\<close>

type_synonym id = string
type_synonym File = string

datatype url = FilePreviewUrl id | InitialsUrl string | ExternalUrl string

text \<open>\<open>avatars.getInitials\<close> composes the URL of the avatar service; it sends nothing.\<close>

definition avatars_getInitials :: "string \<Rightarrow> url" where
  "avatars_getInitials n = InitialsUrl n"

text \<open>
  What can be thrown: the global \<open>Error\<close> constructor itself (\<open>throw Error\<close>), a
  \<open>TypeError\<close> of the runtime (a property read on \<open>undefined\<close> or \<open>null\<close>), and the
  exception of the SDK carrying the backend's message.
\<close>

datatype js_error = ErrorConstructor | TypeError | AppwriteException string

text \<open>
  Modelled from the spec: \<open>./config\<close>, which holds \<open>appwriteConfig\<close>, is not among the
  sources. Its four collection identifiers are the collections the spec requires (users,
  posts, saved posts, followers), under the names the functions use.
\<close>

datatype collection =
  userCollectionId | postCollectionId | savesCollectionId | followersCollectionId

record follow_doc =
  follow_id :: id
  follower :: id
  followedUser :: id

record user_attrs =
  accountId :: id
  name :: string
  username :: "string option"
  email :: string
  bio :: string
  user_imageUrl :: url
  user_imageId :: id
  following :: "follow_doc list"
  followers :: "follow_doc list"

record post_attrs =
  creator :: id
  caption :: string
  post_imageUrl :: url
  post_imageId :: id
  location :: "string option"
  tags :: "string list"
  likes :: "id list"

record save_attrs =
  save_user :: id
  save_post :: id

record follow_attrs =
  follow_follower :: id
  follow_followedUser :: id

datatype attrs =
  UserAttrs user_attrs | PostAttrs post_attrs | SaveAttrs save_attrs | FollowAttrs follow_attrs

text \<open>
  A \<open>Models.Document\<close>: the system fields \<open>$id\<close>, \<open>$createdAt\<close>, \<open>$updatedAt\<close> and the
  attributes of its collection. \<open>createdAt\<close> holds \<open>new Date($createdAt).getTime()\<close>, the
  timestamp in milliseconds, which is all the code reads of the date string.
\<close>

record document =
  doc_id :: id
  createdAt :: int
  updatedAt :: int
  attrs :: attrs

text \<open>The object literals the code passes to \<open>createDocument\<close> and \<open>updateDocument\<close>.\<close>

datatype data =
  UserData id string string url "string option"
    \<comment> \<open>\<open>{accountId, email, name, imageUrl, username}\<close>\<close>
| PostData id string url id "string option" "string list"
    \<comment> \<open>\<open>{creator, caption, imageUrl, imageId, location, tags}\<close>\<close>
| LikesData "id list"
    \<comment> \<open>\<open>{likes}\<close>\<close>
| SaveData id id
    \<comment> \<open>\<open>{user, post}\<close>\<close>
| PostUpdateData string url id "string option" "string list"
    \<comment> \<open>\<open>{caption, imageUrl, imageId, location, tags}\<close>\<close>
| UserUpdateData string string string string url id
    \<comment> \<open>\<open>{name, username, email, bio, imageUrl, imageId}\<close>\<close>
| FollowData id id
    \<comment> \<open>\<open>{follower, followedUser}\<close>\<close>

datatype query =
  Query_equal string string | Query_orderDesc string | Query_search string string
| Query_limit int

record account_doc =
  account_id :: id
  account_email :: string
  account_password :: string
  account_name :: string

record session_doc =
  session_userId :: id

text \<open>A \<open>Models.DocumentList\<close>, the answer of \<open>listDocuments\<close>.\<close>

record document_list =
  total :: nat
  documents :: "document list"

record file_doc =
  file_id :: id

section \<open>The backend and the calls of the SDK\<close>

text \<open>
  The backend is a remote system of its own. Its state is what the claims speak about:
  the accounts and the current session, the documents of each collection in storage
  order, the files of the bucket, and a clock that stamps every write.
\<close>

record backend =
  accounts :: "account_doc list"
  session :: "session_doc option"
  collections :: "collection \<Rightarrow> document list"
  bucket :: "id \<rightharpoonup> File"
  clock :: int
  fulltext :: "string \<Rightarrow> string \<Rightarrow> bool"

datatype remote_call =
  Account_create id string string string
| Account_createEmailSession string string
| Account_deleteSession string
| Account_get
| Account_updateName string
| Databases_createDocument collection id data
| Databases_getDocument collection id
| Databases_listDocuments collection "query list"
| Databases_updateDocument collection id data
| Databases_deleteDocument collection id
| Storage_createFile id "File option"
| Storage_getFilePreview id
| Storage_deleteFile id

text \<open>
  How a call of the SDK ended: its promise resolved with a value, resolved with a falsy
  value (the case the code tests with \<open>if (!x)\<close>), or was rejected.
\<close>

datatype status = Resolved | ResolvedFalsy | Rejected js_error

text \<open>
  What the network and the backend do to the next call, outside the control of the
  client: answer it, answer it with a falsy value, or fail it.
\<close>

datatype fault = Healthy | Falsy | Reject js_error

text \<open>
  The world a function of the access layer runs in: the backend, the faults still to
  come (one per call of the SDK, none left meaning a healthy backend), the calls issued so
  far with how each ended, what \<open>console.log\<close> printed, and the supply of \<open>ID.unique()\<close>.
  The answers of calls that are in flight together arrive in an order the client does not
  control; \<open>race\<close> stands for it: among the rejections of such calls it tells which one
  arrives first.
\<close>

record world =
  remote :: backend
  faults :: "fault list"
  trace :: "(remote_call \<times> status) list"
  console :: "js_error list"
  unique :: "nat \<Rightarrow> id"
  uniqueCount :: nat
  race :: nat

section \<open>Control flow of the asynchronous functions\<close>

text \<open>
  An \<open>async\<close> function is a state transformer on the world whose result is either the
  thrown error (\<open>Inl\<close>, a rejected promise) or the returned value (\<open>Inr\<close>).
  \<open>undefined\<close> is \<open>None\<close>.
\<close>

type_synonym 'a js = "world \<Rightarrow> (js_error + 'a) \<times> world"

definition resolve :: "'a \<Rightarrow> 'a js" where
  "resolve x w = (Inr x, w)"

definition throw :: "js_error \<Rightarrow> 'a js" where
  "throw e w = (Inl e, w)"

definition await :: "'a js \<Rightarrow> ('a \<Rightarrow> 'b js) \<Rightarrow> 'b js" where
  "await m k w = (case m w of (Inl e, w') \<Rightarrow> (Inl e, w') | (Inr x, w') \<Rightarrow> k x w')"

definition try_catch :: "'a js \<Rightarrow> (js_error \<Rightarrow> 'a js) \<Rightarrow> 'a js" where
  "try_catch m h w = (case m w of (Inl e, w') \<Rightarrow> h e w' | (Inr x, w') \<Rightarrow> (Inr x, w'))"

definition console_log :: "js_error \<Rightarrow> unit js" where
  "console_log e w = (Inr (), w\<lparr>console := console w @ [e]\<rparr>)"

definition ID_unique :: "id js" where
  "ID_unique w = (Inr (unique w (uniqueCount w)), w\<lparr>uniqueCount := Suc (uniqueCount w)\<rparr>)"

text \<open>
  \<open>Promise.all\<close> over calls that were all issued before the first answer is awaited.
  Every call is issued, in array order, and every one runs to its end. With no rejection
  the result is the list of the values. Otherwise the promise is rejected with the
  rejection that arrives first, which need not be the first in array order: it is the one
  \<open>race\<close> picks among the rejections.
\<close>

fun issue_all :: "'a js list \<Rightarrow> world \<Rightarrow> (js_error + 'a) list \<times> world" where
  "issue_all [] w = ([], w)"
| "issue_all (m # ms) w =
     (case m w of (r, w1) \<Rightarrow> (case issue_all ms w1 of (rs, w2) \<Rightarrow> (r # rs, w2)))"

fun rejected :: "(js_error + 'a) list \<Rightarrow> js_error list" where
  "rejected [] = []"
| "rejected (Inl e # rs) = e # rejected rs"
| "rejected (Inr _ # rs) = rejected rs"

fun fulfilled :: "(js_error + 'a) list \<Rightarrow> 'a list" where
  "fulfilled [] = []"
| "fulfilled (Inl _ # rs) = fulfilled rs"
| "fulfilled (Inr x # rs) = x # fulfilled rs"

definition Promise_all :: "'a js list \<Rightarrow> 'a list js" where
  "Promise_all ms w =
     (case issue_all ms w of (rs, w') \<Rightarrow>
        ((case rejected rs of
            [] \<Rightarrow> Inr (fulfilled rs)
          | e # es \<Rightarrow> Inl ((e # es) ! (race w mod length (e # es)))), w'))"

text \<open>
  One call of the SDK. The next fault decides how it ends; a healthy call runs the
  backend's own operation \<open>op\<close>, which may still reject it. A call that is rejected or
  answered with a falsy value leaves the backend as it was. The call and its end are
  appended to the trace.
\<close>

definition sdk :: "remote_call \<Rightarrow> (backend \<Rightarrow> (js_error + 'a) \<times> backend) \<Rightarrow> 'a option js" where
  "sdk c op w =
     (let w1 = w\<lparr>faults := tl (faults w)\<rparr> in
      case (case faults w of [] \<Rightarrow> Healthy | f # _ \<Rightarrow> f) of
        Reject e \<Rightarrow> (Inl e, w1\<lparr>trace := trace w @ [(c, Rejected e)]\<rparr>)
      | Falsy \<Rightarrow> (Inr None, w1\<lparr>trace := trace w @ [(c, ResolvedFalsy)]\<rparr>)
      | Healthy \<Rightarrow>
          (case op (remote w) of
             (Inl e, b) \<Rightarrow> (Inl e, w1\<lparr>remote := b, trace := trace w @ [(c, Rejected e)]\<rparr>)
           | (Inr x, b) \<Rightarrow> (Inr (Some x), w1\<lparr>remote := b, trace := trace w @ [(c, Resolved)]\<rparr>)))"

subsection \<open>The backend's storage operations\<close>

definition storage_createFile :: "id \<Rightarrow> File option \<Rightarrow> file_doc option js" where
  "storage_createFile fileId f =
     sdk (Storage_createFile fileId f)
       (\<lambda>b. case f of
               None \<Rightarrow> (Inl (AppwriteException ''Missing required parameter: file''), b)
             | Some content \<Rightarrow>
                 (Inr \<lparr>file_id = fileId\<rparr>, b\<lparr>bucket := (bucket b)(fileId \<mapsto> content)\<rparr>))"

definition storage_getFilePreview :: "id \<Rightarrow> url option js" where
  "storage_getFilePreview fileId =
     sdk (Storage_getFilePreview fileId) (\<lambda>b. (Inr (FilePreviewUrl fileId), b))"

definition storage_deleteFile :: "id \<Rightarrow> unit option js" where
  "storage_deleteFile fileId =
     sdk (Storage_deleteFile fileId)
       (\<lambda>b. if fileId \<in> dom (bucket b)
             then (Inr (), b\<lparr>bucket := (bucket b)(fileId := None)\<rparr>)
             else (Inl (AppwriteException ''storage_file_not_found''), b))"

subsection \<open>The backend's document operations\<close>

text \<open>
  A new document gets the attributes of the object literal; the attributes the literal
  does not give start empty. An object literal that does not fit the collection is
  refused.
\<close>

fun new_attrs :: "collection \<Rightarrow> data \<Rightarrow> attrs option" where
  "new_attrs userCollectionId (UserData a e n u un) =
     Some (UserAttrs \<lparr>accountId = a, name = n, username = un, email = e, bio = [],
       user_imageUrl = u, user_imageId = [], following = [], followers = []\<rparr>)"
| "new_attrs postCollectionId (PostData c cap u i loc ts) =
     Some (PostAttrs \<lparr>creator = c, caption = cap, post_imageUrl = u, post_imageId = i,
       location = loc, tags = ts, likes = []\<rparr>)"
| "new_attrs savesCollectionId (SaveData u p) =
     Some (SaveAttrs \<lparr>save_user = u, save_post = p\<rparr>)"
| "new_attrs followersCollectionId (FollowData f g) =
     Some (FollowAttrs \<lparr>follow_follower = f, follow_followedUser = g\<rparr>)"
| "new_attrs _ _ = None"

fun patch_attrs :: "attrs \<Rightarrow> data \<Rightarrow> attrs option" where
  "patch_attrs (PostAttrs p) (LikesData ls) = Some (PostAttrs (p\<lparr>likes := ls\<rparr>))"
| "patch_attrs (PostAttrs p) (PostUpdateData cap u i loc ts) =
     Some (PostAttrs (p\<lparr>caption := cap, post_imageUrl := u, post_imageId := i,
       location := loc, tags := ts\<rparr>))"
| "patch_attrs (UserAttrs u) (UserUpdateData n un e b iu ii) =
     Some (UserAttrs (u\<lparr>name := n, username := Some un, email := e, bio := b,
       user_imageUrl := iu, user_imageId := ii\<rparr>))"
| "patch_attrs _ _ = None"

definition find_document :: "id \<Rightarrow> document list \<Rightarrow> document option" where
  "find_document i ds = find (\<lambda>d. doc_id d = i) ds"

definition databases_createDocument :: "collection \<Rightarrow> id \<Rightarrow> data \<Rightarrow> document option js" where
  "databases_createDocument coll documentId dat =
     sdk (Databases_createDocument coll documentId dat)
       (\<lambda>b. case new_attrs coll dat of
               None \<Rightarrow> (Inl (AppwriteException ''document_invalid_structure''), b)
             | Some a \<Rightarrow>
                 (let d = \<lparr>doc_id = documentId, createdAt = clock b, updatedAt = clock b,
                            attrs = a\<rparr>
                  in (Inr d, b\<lparr>collections := (collections b)(coll := collections b coll @ [d]),
                                clock := clock b + 1\<rparr>)))"

definition databases_getDocument :: "collection \<Rightarrow> id \<Rightarrow> document option js" where
  "databases_getDocument coll documentId =
     sdk (Databases_getDocument coll documentId)
       (\<lambda>b. case find_document documentId (collections b coll) of
               None \<Rightarrow> (Inl (AppwriteException ''document_not_found''), b)
             | Some d \<Rightarrow> (Inr d, b))"

definition databases_updateDocument :: "collection \<Rightarrow> id \<Rightarrow> data \<Rightarrow> document option js" where
  "databases_updateDocument coll documentId dat =
     sdk (Databases_updateDocument coll documentId dat)
       (\<lambda>b. case find_document documentId (collections b coll) of
               None \<Rightarrow> (Inl (AppwriteException ''document_not_found''), b)
             | Some d \<Rightarrow>
                 (case patch_attrs (attrs d) dat of
                    None \<Rightarrow> (Inl (AppwriteException ''document_invalid_structure''), b)
                  | Some a \<Rightarrow>
                      (let d' = d\<lparr>updatedAt := clock b, attrs := a\<rparr>
                       in (Inr d',
                           b\<lparr>collections := (collections b)(coll :=
                                map (\<lambda>x. if doc_id x = documentId then d' else x)
                                  (collections b coll)),
                             clock := clock b + 1\<rparr>))))"

definition databases_deleteDocument :: "collection \<Rightarrow> id \<Rightarrow> unit option js" where
  "databases_deleteDocument coll documentId =
     sdk (Databases_deleteDocument coll documentId)
       (\<lambda>b. case find_document documentId (collections b coll) of
               None \<Rightarrow> (Inl (AppwriteException ''document_not_found''), b)
             | Some d \<Rightarrow>
                 (Inr (), b\<lparr>collections := (collections b)(coll :=
                                filter (\<lambda>x. doc_id x \<noteq> documentId) (collections b coll))\<rparr>))"

text \<open>
  The attributes a query of the code names. \<open>creator\<close> is a relationship: it is written
  and compared as the identifier of the user.
\<close>

definition string_attr :: "string \<Rightarrow> document \<Rightarrow> string option" where
  "string_attr a d =
     (if a = ''$id'' then Some (doc_id d)
      else case attrs d of
        UserAttrs u \<Rightarrow>
          (if a = ''accountId'' then Some (accountId u)
           else if a = ''name'' then Some (name u)
           else if a = ''email'' then Some (email u)
           else None)
      | PostAttrs p \<Rightarrow>
          (if a = ''creator'' then Some (creator p)
           else if a = ''caption'' then Some (caption p)
           else None)
      | SaveAttrs s \<Rightarrow>
          (if a = ''user'' then Some (save_user s)
           else if a = ''post'' then Some (save_post s)
           else None)
      | FollowAttrs f \<Rightarrow>
          (if a = ''follower'' then Some (follow_follower f)
           else if a = ''followedUser'' then Some (follow_followedUser f)
           else None))"

definition time_attr :: "string \<Rightarrow> (document \<Rightarrow> int) option" where
  "time_attr a =
     (if a = ''$createdAt'' then Some createdAt
      else if a = ''$updatedAt'' then Some updatedAt
      else None)"

text \<open>
  One query applied to the documents selected so far. Ordering is stable; a query on an
  attribute the backend does not know is refused.
\<close>

fun apply_query :: "backend \<Rightarrow> query \<Rightarrow> document list \<Rightarrow> js_error + document list" where
  "apply_query b (Query_equal a v) ds = Inr (filter (\<lambda>d. string_attr a d = Some v) ds)"
| "apply_query b (Query_orderDesc a) ds =
     (case time_attr a of
        None \<Rightarrow> Inl (AppwriteException ''general_query_invalid'')
      | Some t \<Rightarrow> Inr (sort_key (\<lambda>d. - t d) ds))"
| "apply_query b (Query_search a v) ds =
     Inr (filter (\<lambda>d. case string_attr a d of None \<Rightarrow> False | Some s \<Rightarrow> fulltext b v s) ds)"
| "apply_query b (Query_limit n) ds = Inr (take (nat n) ds)"

fun apply_queries :: "backend \<Rightarrow> query list \<Rightarrow> document list \<Rightarrow> js_error + document list" where
  "apply_queries b [] ds = Inr ds"
| "apply_queries b (q # qs) ds =
     (case apply_query b q ds of Inl e \<Rightarrow> Inl e | Inr ds' \<Rightarrow> apply_queries b qs ds')"

definition databases_listDocuments :: "collection \<Rightarrow> query list \<Rightarrow> document_list option js" where
  "databases_listDocuments coll queries =
     sdk (Databases_listDocuments coll queries)
       (\<lambda>b. case apply_queries b queries (collections b coll) of
               Inl e \<Rightarrow> (Inl e, b)
             | Inr ds \<Rightarrow> (Inr \<lparr>total = length ds, documents = ds\<rparr>, b))"

subsection \<open>The backend's account operations\<close>

definition account_create ::
  "id \<Rightarrow> string \<Rightarrow> string \<Rightarrow> string \<Rightarrow> account_doc option js" where
  "account_create userId mail password nm =
     sdk (Account_create userId mail password nm)
       (\<lambda>b. if mail \<in> set (map account_email (accounts b))
             then (Inl (AppwriteException ''user_already_exists''), b)
             else
               (let a = \<lparr>account_id = userId, account_email = mail,
                          account_password = password, account_name = nm\<rparr>
                in (Inr a, b\<lparr>accounts := accounts b @ [a]\<rparr>)))"

definition account_createEmailSession :: "string \<Rightarrow> string \<Rightarrow> session_doc option js" where
  "account_createEmailSession mail password =
     sdk (Account_createEmailSession mail password)
       (\<lambda>b. case find (\<lambda>a. account_email a = mail \<and> account_password a = password)
                    (accounts b) of
               None \<Rightarrow> (Inl (AppwriteException ''user_invalid_credentials''), b)
             | Some a \<Rightarrow>
                 (let s = \<lparr>session_userId = account_id a\<rparr>
                  in (Inr s, b\<lparr>session := Some s\<rparr>)))"

definition account_deleteSession :: "string \<Rightarrow> unit option js" where
  "account_deleteSession sessionId =
     sdk (Account_deleteSession sessionId)
       (\<lambda>b. case session b of
               None \<Rightarrow> (Inl (AppwriteException ''general_unauthorized_scope''), b)
             | Some s \<Rightarrow> (Inr (), b\<lparr>session := None\<rparr>))"

definition current_account :: "backend \<Rightarrow> account_doc option" where
  "current_account b =
     (case session b of
        None \<Rightarrow> None
      | Some s \<Rightarrow> find (\<lambda>a. account_id a = session_userId s) (accounts b))"

definition account_get :: "account_doc option js" where
  "account_get =
     sdk Account_get
       (\<lambda>b. case current_account b of
               None \<Rightarrow> (Inl (AppwriteException ''general_unauthorized_scope''), b)
             | Some a \<Rightarrow> (Inr a, b))"

definition account_updateName :: "string \<Rightarrow> account_doc option js" where
  "account_updateName nm =
     sdk (Account_updateName nm)
       (\<lambda>b. case current_account b of
               None \<Rightarrow> (Inl (AppwriteException ''general_unauthorized_scope''), b)
             | Some a \<Rightarrow>
                 (let a' = a\<lparr>account_name := nm\<rparr>
                  in (Inr a',
                      b\<lparr>accounts :=
                          map (\<lambda>x. if account_id x = account_id a then a' else x)
                            (accounts b)\<rparr>)))"

section \<open>The access layer: files\<close>

text \<open>
  Each function is the \<open>try\<close> block of the source followed by its \<open>catch\<close>, which
  prints the error and lets the function return \<open>undefined\<close>. \<open>getFilePreview\<close> is the
  one function that is not \<open>async\<close>; its call of the SDK is sequenced like the others.
\<close>

text \<open>\<open>xs[0]\<close>: the first element, \<open>undefined\<close> on the empty array.\<close>

definition first:: "'a list \<Rightarrow> 'a option" where
  "first xs = (case xs of [] \<Rightarrow> None | x # _ \<Rightarrow> Some x)"

definition uploadFile :: "File option \<Rightarrow> file_doc option js" where
  "uploadFile f =
     try_catch
       (await ID_unique (\<lambda>fileId.
        await (storage_createFile fileId f) (\<lambda>uploadedFile.
        resolve uploadedFile)))
       (\<lambda>error. await (console_log error) (\<lambda>_. resolve None))"

definition getFilePreview :: "id \<Rightarrow> url option js" where
  "getFilePreview fileId =
     try_catch
       (await (storage_getFilePreview fileId) (\<lambda>fileUrl.
        resolve fileUrl))
       (\<lambda>error. await (console_log error) (\<lambda>_. resolve None))"

definition deleteFile :: "id \<Rightarrow> unit option js" where
  "deleteFile fileId =
     try_catch
       (await (storage_deleteFile fileId) (\<lambda>_.
        resolve (Some ())))
       (\<lambda>error. await (console_log error) (\<lambda>_. resolve None))"

section \<open>The access layer: posts\<close>

text \<open>
  Modelled from the spec: the declarations of \<open>@/types\<close> are not among the sources.
  Each record has the fields of the spec's data model that the functions read, under the
  names the functions use. An optional field (\<open>tags?\<close>, \<open>location?\<close>) is an option.
\<close>

record INewPost =
  np_userId :: id
  np_caption :: string
  np_file :: "File list"
  np_location :: "string option"
  np_tags :: "string option"

record IUpdatePost =
  up_postId :: id
  up_caption :: string
  up_imageId :: id
  up_imageUrl :: url
  up_file :: "File list"
  up_location :: "string option"
  up_tags :: "string option"

text \<open>\<open>s.replace(/ /g, "")\<close>: every space character (U+0020) is removed.\<close>

definition replace_spaces :: "string \<Rightarrow> string" where
  "replace_spaces s = filter (\<lambda>c. c \<noteq> CHR '' '') s"

text \<open>
  \<open>s.split(",")\<close>: the pieces between the separators; the empty string gives one empty
  piece.
\<close>

fun split :: "char \<Rightarrow> string \<Rightarrow> string list" where
  "split sep [] = [[]]"
| "split sep (c # cs) =
     (if c = sep then [] # split sep cs
      else (case split sep cs of [] \<Rightarrow> [[c]] | piece # pieces \<Rightarrow> (c # piece) # pieces))"

text \<open>
  \<open>post.tags?.replace(/ /g, "").split(",") || []\<close>: an array is truthy, so \<open>[]\<close> is
  taken only when \<open>tags\<close> is \<open>undefined\<close>.
\<close>

definition tags_array :: "string option \<Rightarrow> string list" where
  "tags_array t = (case t of None \<Rightarrow> [] | Some s \<Rightarrow> split CHR '','' (replace_spaces s))"

text \<open>
  \<open>createPost\<close> and \<open>updatePost\<close> call \<open>deleteFile\<close> without \<open>await\<close> when the preview
  is missing. \<open>deleteFile\<close> never rejects and sends its request before the \<open>throw\<close> that
  follows, so the call is placed in program order and its effect is taken as done.
\<close>

definition createPost :: "INewPost \<Rightarrow> document option js" where
  "createPost post =
     try_catch
       (await (uploadFile (first (np_file post))) (\<lambda>uploadedFile.
        case uploadedFile of
          None \<Rightarrow> throw ErrorConstructor
        | Some uploaded \<Rightarrow>
            await (getFilePreview (file_id uploaded)) (\<lambda>fileUrl.
            case fileUrl of
              None \<Rightarrow>
                await (deleteFile (file_id uploaded)) (\<lambda>_.
                throw ErrorConstructor)
            | Some fileUrl' \<Rightarrow>
                (let tags = tags_array (np_tags post) in
                 await ID_unique (\<lambda>documentId.
                 await (databases_createDocument postCollectionId documentId
                          (PostData (np_userId post) (np_caption post) fileUrl'
                             (file_id uploaded) (np_location post) tags)) (\<lambda>newPost.
                 case newPost of
                   None \<Rightarrow>
                     await (deleteFile (file_id uploaded)) (\<lambda>_.
                     throw ErrorConstructor)
                 | Some newPost' \<Rightarrow> resolve (Some newPost')))))))
       (\<lambda>error. await (console_log error) (\<lambda>_. resolve None))"

definition likePost :: "id \<Rightarrow> id list \<Rightarrow> document option js" where
  "likePost postId likesArray =
     try_catch
       (await (databases_updateDocument postCollectionId postId (LikesData likesArray))
          (\<lambda>updatedPost.
        case updatedPost of
          None \<Rightarrow> throw ErrorConstructor
        | Some updatedPost' \<Rightarrow> resolve (Some updatedPost')))
       (\<lambda>error. await (console_log error) (\<lambda>_. resolve None))"

definition updatePost :: "IUpdatePost \<Rightarrow> document option js" where
  "updatePost post =
     (let hasFileToUpdate = (length (up_file post) > 0) in
      try_catch
        (await
           (if hasFileToUpdate then
              await (uploadFile (first (up_file post))) (\<lambda>uploadedFile.
              case uploadedFile of
                None \<Rightarrow> throw ErrorConstructor
              | Some uploaded \<Rightarrow>
                  await (getFilePreview (file_id uploaded)) (\<lambda>fileUrl.
                  case fileUrl of
                    None \<Rightarrow>
                      await (deleteFile (file_id uploaded)) (\<lambda>_.
                      throw ErrorConstructor)
                  | Some fileUrl' \<Rightarrow> resolve (fileUrl', file_id uploaded)))
            else resolve (up_imageUrl post, up_imageId post)) (\<lambda>image.
         let tags = tags_array (up_tags post) in
         await (databases_updateDocument postCollectionId (up_postId post)
                  (PostUpdateData (up_caption post) (fst image) (snd image)
                     (up_location post) tags)) (\<lambda>updatedPost.
         case updatedPost of
           None \<Rightarrow>
             await (deleteFile (up_imageId post)) (\<lambda>_.
             throw ErrorConstructor)
         | Some updatedPost' \<Rightarrow> resolve (Some updatedPost'))))
        (\<lambda>error. await (console_log error) (\<lambda>_. resolve None)))"

text \<open>
  \<open>deletePost\<close> returns \<open>{ status: "ok" }\<close>, here \<open>Some ()\<close>. Its first line stands before
  the \<open>try\<close>, so its \<open>throw\<close> rejects the promise the caller holds.
\<close>

definition deletePost :: "id \<Rightarrow> id \<Rightarrow> unit option js" where
  "deletePost postId imageId =
     (if postId = [] \<or> imageId = [] then throw ErrorConstructor
      else
        try_catch
          (await (databases_deleteDocument postCollectionId postId) (\<lambda>_.
           resolve (Some ())))
          (\<lambda>error. await (console_log error) (\<lambda>_. resolve None)))"

section \<open>The access layer: feeds and reads\<close>

text \<open>
  \<open>xs.slice(start, end)\<close> on integer arguments: a negative index counts from the end of
  the array, both indices are clamped to the array, and an empty range gives \<open>[]\<close>.
\<close>

definition slice :: "'a list \<Rightarrow> int \<Rightarrow> int \<Rightarrow> 'a list" where
  "slice xs start endIndex =
     (let len = int (length xs);
          k = (if start < 0 then max (len + start) 0 else min start len);
          final = (if endIndex < 0 then max (len + endIndex) 0 else min endIndex len)
      in take (nat (final - k)) (drop (nat k) xs))"

text \<open>\<open>!s\<close> for \<open>s?: string\<close>: \<open>undefined\<close> and the empty string are falsy.\<close>

definition falsy_string :: "string option \<Rightarrow> bool" where
  "falsy_string s = (case s of None \<Rightarrow> True | Some v \<Rightarrow> v = [])"

definition getCurrentUser :: "document option js" where
  "getCurrentUser =
     try_catch
       (await account_get (\<lambda>currentAccount.
        case currentAccount of
          None \<Rightarrow> throw ErrorConstructor
        | Some currentAccount' \<Rightarrow>
            await (databases_listDocuments userCollectionId
                     [Query_equal ''accountId'' (account_id currentAccount')]) (\<lambda>currentUser.
            case currentUser of
              None \<Rightarrow> throw ErrorConstructor
            | Some currentUser' \<Rightarrow> resolve (first (documents currentUser')))))
       (\<lambda>error. await (console_log error) (\<lambda>_. resolve None))"

text \<open>
  \<open>getFollowingPosts\<close>. \<open>currentUser.following\<close> exists on a user document only, and
  \<open>creator.documents\<close> on an answer that is not falsy; elsewhere the read throws a
  \<open>TypeError\<close>. The array \<open>sort\<close> is stable and puts \<open>a\<close> before \<open>b\<close> when
  \<open>b.$createdAt - a.$createdAt\<close> is negative. \<open>postList\<close> is an array, which is truthy, so
  the \<open>throw\<close> after the sort is never taken.
\<close>

definition getFollowingPosts :: "document list option js" where
  "getFollowingPosts =
     try_catch
       (await getCurrentUser (\<lambda>currentUser.
        case currentUser of
          None \<Rightarrow> throw ErrorConstructor
        | Some currentUser' \<Rightarrow>
            (case attrs currentUser' of
               UserAttrs u \<Rightarrow>
                 (let userIds = map followedUser (following u) @ [doc_id currentUser'] in
                  await (Promise_all
                           (map (\<lambda>userId. databases_listDocuments postCollectionId
                                             [Query_equal ''creator'' userId]) userIds))
                    (\<lambda>fetchPosts.
                  case those fetchPosts of
                    None \<Rightarrow> throw TypeError
                  | Some fetched \<Rightarrow>
                      (let postList = sort_key (\<lambda>d. - createdAt d)
                                        (concat (map documents fetched))
                       in resolve (Some postList))))
             | _ \<Rightarrow> throw TypeError)))
       (\<lambda>error. await (console_log error) (\<lambda>_. resolve None))"

text \<open>
  The paginated reads. \<open>pageSize\<close> is an optional argument with a default; \<open>page\<close> and
  \<open>pageSize\<close> are taken as integers, the values the callers pass.
\<close>

definition getHomeFeedPosts :: "int \<Rightarrow> int option \<Rightarrow> document list option js" where
  "getHomeFeedPosts page pageSizeArg =
     (let pageSize = (case pageSizeArg of None \<Rightarrow> 3 | Some n \<Rightarrow> n) in
      try_catch
        (await getFollowingPosts (\<lambda>allPosts.
         let startIndex = (page - 1) * pageSize;
             endIndex = startIndex + pageSize;
             slicedPosts = map_option (\<lambda>ps. slice ps startIndex endIndex) allPosts
         in resolve slicedPosts))
        (\<lambda>error. await (console_log error) (\<lambda>_. resolve None)))"

definition getAllPosts :: "document list option js" where
  "getAllPosts =
     try_catch
       (await (databases_listDocuments postCollectionId [Query_orderDesc ''$updatedAt''])
          (\<lambda>posts.
        case posts of
          None \<Rightarrow> throw ErrorConstructor
        | Some posts' \<Rightarrow> resolve (Some (documents posts'))))
       (\<lambda>error. await (console_log error) (\<lambda>_. resolve None))"

definition getExplorePosts :: "int \<Rightarrow> int option \<Rightarrow> document list option js" where
  "getExplorePosts page pageSizeArg =
     (let pageSize = (case pageSizeArg of None \<Rightarrow> 9 | Some n \<Rightarrow> n) in
      try_catch
        (await getAllPosts (\<lambda>allPosts.
         let startIndex = (page - 1) * pageSize;
             endIndex = startIndex + pageSize;
             slicedPosts = map_option (\<lambda>ps. slice ps startIndex endIndex) allPosts
         in resolve slicedPosts))
        (\<lambda>error. await (console_log error) (\<lambda>_. resolve None)))"

definition searchPosts :: "string \<Rightarrow> document_list option js" where
  "searchPosts searchTerm =
     try_catch
       (await (databases_listDocuments postCollectionId [Query_search ''caption'' searchTerm])
          (\<lambda>posts.
        case posts of
          None \<Rightarrow> throw ErrorConstructor
        | Some posts' \<Rightarrow> resolve (Some posts')))
       (\<lambda>error. await (console_log error) (\<lambda>_. resolve None))"

text \<open>
  \<open>getPostById\<close> tests its argument before the \<open>try\<close>: the \<open>throw\<close> there rejects the
  promise the caller holds.
\<close>

definition getPostById :: "string option \<Rightarrow> document option js" where
  "getPostById postId =
     (case (if falsy_string postId then None else postId) of
        None \<Rightarrow> throw ErrorConstructor
      | Some postId' \<Rightarrow>
          try_catch
            (await (databases_getDocument postCollectionId postId') (\<lambda>post.
             case post of
               None \<Rightarrow> throw ErrorConstructor
             | Some post' \<Rightarrow> resolve (Some post')))
            (\<lambda>error. await (console_log error) (\<lambda>_. resolve None)))"

definition getUserPosts :: "string option \<Rightarrow> document_list option js" where
  "getUserPosts userId =
     (case (if falsy_string userId then None else userId) of
        None \<Rightarrow> resolve None
      | Some userId' \<Rightarrow>
          try_catch
            (await (databases_listDocuments postCollectionId
                      [Query_equal ''creator'' userId', Query_orderDesc ''$createdAt''])
               (\<lambda>userPosts.
             case userPosts of
               None \<Rightarrow> throw ErrorConstructor
             | Some userPosts' \<Rightarrow> resolve (Some userPosts')))
            (\<lambda>error. await (console_log error) (\<lambda>_. resolve None)))"

definition getUserProfilePosts :: "string \<Rightarrow> int \<Rightarrow> int option \<Rightarrow> document list option js" where
  "getUserProfilePosts userId page pageSizeArg =
     (let pageSize = (case pageSizeArg of None \<Rightarrow> 6 | Some n \<Rightarrow> n) in
      try_catch
        (await (getUserPosts (Some userId)) (\<lambda>profileUser.
         let allPosts = map_option documents profileUser;
             startIndex = (page - 1) * pageSize;
             endIndex = startIndex + pageSize;
             slicedPosts = map_option (\<lambda>ps. slice ps startIndex endIndex) allPosts
         in resolve slicedPosts))
        (\<lambda>error. await (console_log error) (\<lambda>_. resolve None)))"

definition savePost :: "id \<Rightarrow> id \<Rightarrow> document option js" where
  "savePost postId userId =
     try_catch
       (await ID_unique (\<lambda>documentId.
        await (databases_createDocument savesCollectionId documentId (SaveData userId postId))
          (\<lambda>updatedPost.
        case updatedPost of
          None \<Rightarrow> throw ErrorConstructor
        | Some updatedPost' \<Rightarrow> resolve (Some updatedPost'))))
       (\<lambda>error. await (console_log error) (\<lambda>_. resolve None))"

definition deleteSavedPost :: "id \<Rightarrow> unit option js" where
  "deleteSavedPost savedRecordId =
     try_catch
       (await (databases_deleteDocument savesCollectionId savedRecordId) (\<lambda>statusCode.
        case statusCode of
          None \<Rightarrow> throw ErrorConstructor
        | Some _ \<Rightarrow> resolve (Some ())))
       (\<lambda>error. await (console_log error) (\<lambda>_. resolve None))"

section \<open>The access layer: accounts and users\<close>

text \<open>
  Modelled from the spec: \<open>INewUser\<close> and \<open>IUpdateUser\<close> are declared in \<open>@/types\<close>,
  which is not among the sources; the records have the fields the functions read.
\<close>

record INewUser =
  nu_name :: string
  nu_email :: string
  nu_username :: string
  nu_password :: string

record IUpdateUser =
  uu_userId :: id
  uu_name :: string
  uu_username :: string
  uu_email :: string
  uu_bio :: string
  uu_imageId :: id
  uu_imageUrl :: url
  uu_file :: "File list"

text \<open>The argument of \<open>saveUserToDB\<close>, an object type written in its signature.\<close>

record db_user =
  du_accountId :: id
  du_email :: string
  du_name :: string
  du_imageUrl :: url
  du_username :: "string option"

definition saveUserToDB :: "db_user \<Rightarrow> document option js" where
  "saveUserToDB user =
     try_catch
       (await ID_unique (\<lambda>documentId.
        await (databases_createDocument userCollectionId documentId
                 (UserData (du_accountId user) (du_email user) (du_name user)
                    (du_imageUrl user) (du_username user))) (\<lambda>newUser.
        resolve newUser)))
       (\<lambda>error. await (console_log error) (\<lambda>_. resolve None))"

text \<open>
  What \<open>createUserAccount\<close> returns: the result of \<open>saveUserToDB\<close>, or, from its
  \<open>catch\<close>, the error it caught (\<open>return error\<close>).
\<close>

datatype 'a or_error = Value 'a | ErrorValue js_error

definition createUserAccount :: "INewUser \<Rightarrow> document option or_error js" where
  "createUserAccount user =
     try_catch
       (await ID_unique (\<lambda>userId.
        await (account_create userId (nu_email user) (nu_password user) (nu_name user))
          (\<lambda>newAccount.
        case newAccount of
          None \<Rightarrow> throw ErrorConstructor
        | Some newAccount' \<Rightarrow>
            (let avatarUrl = avatars_getInitials (nu_name user) in
             await (saveUserToDB
                      \<lparr>du_accountId = account_id newAccount',
                       du_email = account_email newAccount',
                       du_name = account_name newAccount',
                       du_imageUrl = avatarUrl,
                       du_username = Some (nu_username user)\<rparr>) (\<lambda>newUser.
             resolve (Value newUser))))))
       (\<lambda>error. await (console_log error) (\<lambda>_. resolve (ErrorValue error)))"

definition signInAccount :: "string \<Rightarrow> string \<Rightarrow> session_doc option js" where
  "signInAccount mail password =
     try_catch
       (await (account_createEmailSession mail password) (\<lambda>session.
        resolve session))
       (\<lambda>error. await (console_log error) (\<lambda>_. resolve None))"

definition signOutAccount :: "unit option js" where
  "signOutAccount =
     try_catch
       (await (account_deleteSession ''current'') (\<lambda>session.
        resolve session))
       (\<lambda>error. await (console_log error) (\<lambda>_. resolve None))"

definition getUserById :: "string option \<Rightarrow> document option js" where
  "getUserById userId =
     (case (if falsy_string userId then None else userId) of
        None \<Rightarrow> resolve None
      | Some userId' \<Rightarrow>
          try_catch
            (await (databases_getDocument userCollectionId userId') (\<lambda>user.
             case user of
               None \<Rightarrow> resolve None
             | Some user' \<Rightarrow> resolve (Some user')))
            (\<lambda>error. await (console_log error) (\<lambda>_. resolve None)))"

text \<open>
  \<open>getUsers\<close> sorts by \<open>b.followers.length - a.followers.length\<close>. The comparison runs
  on every element of an array of two or more, and reading \<open>followers.length\<close> of a
  document without followers throws a \<open>TypeError\<close>.
\<close>

definition followers_length :: "document \<Rightarrow> int option" where
  "followers_length d =
     (case attrs d of UserAttrs u \<Rightarrow> Some (int (length (followers u))) | _ \<Rightarrow> None)"

definition getUsers :: "int option \<Rightarrow> document list option js" where
  "getUsers limit =
     (let queries = (case limit of None \<Rightarrow> []
                     | Some n \<Rightarrow> if n = 0 then [] else [Query_limit n]) in
      try_catch
        (await (databases_listDocuments userCollectionId queries) (\<lambda>allUsers.
         case allUsers of
           None \<Rightarrow> throw ErrorConstructor
         | Some allUsers' \<Rightarrow>
             (if length (documents allUsers') < 2 then resolve (Some (documents allUsers'))
              else if list_all (\<lambda>d. followers_length d \<noteq> None) (documents allUsers')
              then resolve (Some (sort_key (\<lambda>d. - the (followers_length d))
                                    (documents allUsers')))
              else throw TypeError)))
        (\<lambda>error. await (console_log error) (\<lambda>_. resolve None)))"

definition getAllUsers :: "int \<Rightarrow> int option \<Rightarrow> document list option js" where
  "getAllUsers page pageSizeArg =
     (let pageSize = (case pageSizeArg of None \<Rightarrow> 9 | Some n \<Rightarrow> n) in
      try_catch
        (await (getUsers None) (\<lambda>allUsers.
         let startIndex = (page - 1) * pageSize;
             endIndex = startIndex + pageSize;
             slicedUsers = map_option (\<lambda>us. slice us startIndex endIndex) allUsers
         in resolve slicedUsers))
        (\<lambda>error. await (console_log error) (\<lambda>_. resolve None)))"

text \<open>
  \<open>updateUser\<close> has no \<open>return\<close> statement: where its \<open>try\<close> block ends normally the
  function returns \<open>undefined\<close>, as it does from its \<open>catch\<close>. Its result type is that of
  the value \<open>useUpdateUser\<close> reads \<open>$id\<close> from.
\<close>

definition updateUser :: "IUpdateUser \<Rightarrow> document option js" where
  "updateUser user =
     (let hasFileToUpdate = (length (uu_file user) > 0) in
      try_catch
        (await
           (if hasFileToUpdate then
              await (uploadFile (first (uu_file user))) (\<lambda>uploadedFile.
              case uploadedFile of
                None \<Rightarrow> throw ErrorConstructor
              | Some uploaded \<Rightarrow>
                  await (getFilePreview (file_id uploaded)) (\<lambda>fileUrl.
                  case fileUrl of
                    None \<Rightarrow>
                      await (deleteFile (file_id uploaded)) (\<lambda>_.
                      throw ErrorConstructor)
                  | Some fileUrl' \<Rightarrow> resolve (fileUrl', file_id uploaded)))
            else resolve (uu_imageUrl user, uu_imageId user)) (\<lambda>image.
         await (databases_updateDocument userCollectionId (uu_userId user)
                  (UserUpdateData (uu_name user) (uu_username user) (uu_email user)
                     (uu_bio user) (fst image) (snd image))) (\<lambda>updatedUser.
         await (account_updateName (uu_name user)) (\<lambda>updatedAccount.
         if updatedUser = None \<or> updatedAccount = None then
           await (if hasFileToUpdate then deleteFile (snd image) else resolve None) (\<lambda>_.
           throw ErrorConstructor)
         else
           await (if uu_imageId user \<noteq> [] \<and> hasFileToUpdate
                  then deleteFile (uu_imageId user) else resolve None) (\<lambda>_.
           resolve None)))))
        (\<lambda>error. await (console_log error) (\<lambda>_. resolve None)))"

definition followUser :: "id \<Rightarrow> id \<Rightarrow> document option js" where
  "followUser userId followedUserId =
     try_catch
       (await ID_unique (\<lambda>documentId.
        await (databases_createDocument followersCollectionId documentId
                 (FollowData userId followedUserId)) (\<lambda>followedUser.
        case followedUser of
          None \<Rightarrow> throw ErrorConstructor
        | Some followedUser' \<Rightarrow> resolve (Some followedUser'))))
       (\<lambda>error. await (console_log error) (\<lambda>_. resolve None))"

definition unfollowUser :: "id \<Rightarrow> unit option js" where
  "unfollowUser followedUserRecord =
     try_catch
       (await (databases_deleteDocument followersCollectionId followedUserRecord)
          (\<lambda>statusCode.
        case statusCode of
          None \<Rightarrow> throw ErrorConstructor
        | Some _ \<Rightarrow> resolve (Some ())))
       (\<lambda>error. await (console_log error) (\<lambda>_. resolve None))"

section \<open>The query and cache layer\<close>

text \<open>
  Modelled from the spec: the file of \<open>QUERY_KEYS\<close> is not among the sources. Its
  members are the operation identifiers the spec keys the cache by, under the names the
  hooks use, taken as distinct values.
\<close>

datatype QUERY_KEYS =
  GET_HOME_FEED_POSTS | GET_EXPLORE_POSTS | SEARCH_POSTS | GET_POST_BY_ID | GET_USER_POSTS
| GET_USER_PROFILE_POSTS | GET_CURRENT_USER | GET_USER_BY_ID | GET_USERS | GET_ALL_USERS
| GET_USER_FOLLOWING

text \<open>
  A query key is an array of a member of \<open>QUERY_KEYS\<close> and, for some hooks, a parameter
  that may be \<open>undefined\<close>.
\<close>

datatype key_part = Key QUERY_KEYS | Param "string option"

type_synonym query_key = "key_part list"

text \<open>The query client, as far as the hooks use it: the keys they invalidated.\<close>

record queryClient =
  invalidated :: "query_key list"

definition invalidateQueries :: "query_key \<Rightarrow> queryClient \<Rightarrow> queryClient" where
  "invalidateQueries k qc = qc\<lparr>invalidated := invalidated qc @ [k]\<rparr>"

record 'd query_options =
  queryKey :: query_key
  queryFn :: "'d js"
  enabled :: bool

record 'd infinite_query_options =
  infiniteQueryKey :: query_key
  infiniteQueryFn :: "int \<Rightarrow> 'd js"
  getNextPageParam :: "'d list \<Rightarrow> int"
  initialPageParam :: int

record ('v, 'd) mutation_options =
  mutationFn :: "'v \<Rightarrow> 'd js"
  onSuccess :: "'d \<Rightarrow> queryClient \<Rightarrow> queryClient"

text \<open>
  What the query library does with the options: a query that is not enabled does not
  call its \<open>queryFn\<close>; a mutation calls \<open>onSuccess\<close> with the value of \<open>mutationFn\<close> when
  its promise resolves, and not when it is rejected.
\<close>

definition fetch :: "'d query_options \<Rightarrow> world \<Rightarrow> (js_error + 'd) option \<times> world" where
  "fetch q w = (if enabled q then (case queryFn q w of (r, w') \<Rightarrow> (Some r, w')) else (None, w))"

definition mutate ::
  "('v, 'd) mutation_options \<Rightarrow> 'v \<Rightarrow> world \<times> queryClient \<Rightarrow>
     (js_error + 'd) \<times> world \<times> queryClient" where
  "mutate m v s =
     (case s of (w, qc) \<Rightarrow>
        (case mutationFn m v w of
           (Inl e, w') \<Rightarrow> (Inl e, w', qc)
         | (Inr d, w') \<Rightarrow> (Inr d, w', onSuccess m d qc)))"

definition useCreatePost :: "(INewPost, document option) mutation_options" where
  "useCreatePost =
     \<lparr>mutationFn = (\<lambda>post. createPost post),
      onSuccess = (\<lambda>_. invalidateQueries [Key GET_HOME_FEED_POSTS])\<rparr>"

definition useGetHomeFeedPosts :: "document list option infinite_query_options" where
  "useGetHomeFeedPosts =
     \<lparr>infiniteQueryKey = [Key GET_HOME_FEED_POSTS],
      infiniteQueryFn = (\<lambda>pageParam. getHomeFeedPosts pageParam None),
      getNextPageParam = (\<lambda>pages. int (length pages) + 1),
      initialPageParam = 1\<rparr>"

definition useGetExplorePosts :: "document list option infinite_query_options" where
  "useGetExplorePosts =
     \<lparr>infiniteQueryKey = [Key GET_EXPLORE_POSTS],
      infiniteQueryFn = (\<lambda>pageParam. getExplorePosts pageParam None),
      getNextPageParam = (\<lambda>pages. int (length pages) + 1),
      initialPageParam = 1\<rparr>"

definition useSearchPosts :: "string \<Rightarrow> document_list option query_options" where
  "useSearchPosts searchTerm =
     \<lparr>queryKey = [Key SEARCH_POSTS, Param (Some searchTerm)],
      queryFn = searchPosts searchTerm,
      enabled = (\<not> falsy_string (Some searchTerm))\<rparr>"

definition useGetPostById :: "string option \<Rightarrow> document option query_options" where
  "useGetPostById postId =
     \<lparr>queryKey = [Key GET_POST_BY_ID, Param postId],
      queryFn = getPostById postId,
      enabled = (\<not> falsy_string postId)\<rparr>"

definition useGetUserPosts :: "string option \<Rightarrow> document_list option query_options" where
  "useGetUserPosts userId =
     \<lparr>queryKey = [Key GET_USER_POSTS, Param userId],
      queryFn = getUserPosts userId,
      enabled = (\<not> falsy_string userId)\<rparr>"

definition useGetUserProfilePosts :: "string \<Rightarrow> document list option infinite_query_options" where
  "useGetUserProfilePosts userId =
     \<lparr>infiniteQueryKey = [Key GET_USER_PROFILE_POSTS],
      infiniteQueryFn = (\<lambda>pageParam. getUserProfilePosts userId pageParam None),
      getNextPageParam = (\<lambda>pages. int (length pages) + 1),
      initialPageParam = 1\<rparr>"

definition useLikePost :: "(id \<times> id list, document option) mutation_options" where
  "useLikePost =
     \<lparr>mutationFn = (\<lambda>(postId, likesArray). likePost postId likesArray),
      onSuccess = (\<lambda>data qc.
        invalidateQueries [Key GET_CURRENT_USER]
          (invalidateQueries [Key GET_HOME_FEED_POSTS]
            (invalidateQueries [Key GET_POST_BY_ID, Param (map_option doc_id data)] qc)))\<rparr>"

definition useSavePost :: "(id \<times> id, document option) mutation_options" where
  "useSavePost =
     \<lparr>mutationFn = (\<lambda>(postId, userId). savePost postId userId),
      onSuccess = (\<lambda>_ qc.
        invalidateQueries [Key GET_CURRENT_USER]
          (invalidateQueries [Key GET_HOME_FEED_POSTS] qc))\<rparr>"

definition useDeleteSavedPost :: "(id, unit option) mutation_options" where
  "useDeleteSavedPost =
     \<lparr>mutationFn = (\<lambda>savedRecordId. deleteSavedPost savedRecordId),
      onSuccess = (\<lambda>_ qc.
        invalidateQueries [Key GET_CURRENT_USER]
          (invalidateQueries [Key GET_HOME_FEED_POSTS] qc))\<rparr>"

definition useUpdatePost :: "(IUpdatePost, document option) mutation_options" where
  "useUpdatePost =
     \<lparr>mutationFn = (\<lambda>post. updatePost post),
      onSuccess = (\<lambda>data.
        invalidateQueries [Key GET_POST_BY_ID, Param (map_option doc_id data)])\<rparr>"

definition useDeletePost :: "(id \<times> id, unit option) mutation_options" where
  "useDeletePost =
     \<lparr>mutationFn = (\<lambda>(postId, imageId). deletePost postId imageId),
      onSuccess = (\<lambda>_. invalidateQueries [Key GET_HOME_FEED_POSTS])\<rparr>"

definition useGetCurrentUser :: "document option query_options" where
  "useGetCurrentUser =
     \<lparr>queryKey = [Key GET_CURRENT_USER], queryFn = getCurrentUser, enabled = True\<rparr>"

definition useGetUserById :: "string \<Rightarrow> document option query_options" where
  "useGetUserById userId =
     \<lparr>queryKey = [Key GET_USER_BY_ID, Param (Some userId)],
      queryFn = getUserById (Some userId),
      enabled = (\<not> falsy_string (Some userId))\<rparr>"

definition useUpdateUser :: "(IUpdateUser, document option) mutation_options" where
  "useUpdateUser =
     \<lparr>mutationFn = (\<lambda>user. updateUser user),
      onSuccess = (\<lambda>data qc.
        invalidateQueries [Key GET_USER_BY_ID, Param (map_option doc_id data)]
          (invalidateQueries [Key GET_CURRENT_USER] qc))\<rparr>"

definition useFollowUser :: "(id \<times> id, document option) mutation_options" where
  "useFollowUser =
     \<lparr>mutationFn = (\<lambda>(userId, followedUserId). followUser userId followedUserId),
      onSuccess = (\<lambda>_. invalidateQueries [Key GET_USER_FOLLOWING])\<rparr>"

definition useUnfollowUser :: "(id, unit option) mutation_options" where
  "useUnfollowUser =
     \<lparr>mutationFn = (\<lambda>followedUserRecord. unfollowUser followedUserRecord),
      onSuccess = (\<lambda>_. invalidateQueries [Key GET_USER_FOLLOWING])\<rparr>"

section \<open>A small backend to run the functions on\<close>

text \<open>
  Ann (\<open>u1\<close>) is signed in and follows Bob (\<open>u2\<close>). There are four posts, two of each,
  and the bucket holds the image of the post \<open>p1\<close> and Ann's avatar.
\<close>

definition ann_attrs :: user_attrs where
  "ann_attrs = \<lparr>accountId = ''a1'', name = ''Ann'', username = Some ''ann'',
     email = ''ann@example.org'', bio = [], user_imageUrl = FilePreviewUrl ''avatar'',
     user_imageId = ''avatar'',
     following = [\<lparr>follow_id = ''f1'', follower = ''u1'', followedUser = ''u2''\<rparr>],
     followers = []\<rparr>"

definition ann :: document where
  "ann = \<lparr>doc_id = ''u1'', createdAt = 1, updatedAt = 1, attrs = UserAttrs ann_attrs\<rparr>"

definition ann_account :: account_doc where
  "ann_account = \<lparr>account_id = ''a1'', account_email = ''ann@example.org'',
     account_password = ''secret'', account_name = ''Ann''\<rparr>"

definition bob :: document where
  "bob = \<lparr>doc_id = ''u2'', createdAt = 2, updatedAt = 2,
     attrs = UserAttrs \<lparr>accountId = ''a2'', name = ''Bob'', username = Some ''bob'',
       email = ''bob@example.org'', bio = [], user_imageUrl = InitialsUrl ''Bob'',
       user_imageId = [], following = [],
       followers = [\<lparr>follow_id = ''f1'', follower = ''u1'', followedUser = ''u2''\<rparr>]\<rparr>\<rparr>"

definition example_post :: "id \<Rightarrow> int \<Rightarrow> id \<Rightarrow> id list \<Rightarrow> document" where
  "example_post i t c ls = \<lparr>doc_id = i, createdAt = t, updatedAt = t,
     attrs = PostAttrs \<lparr>creator = c, caption = ''a post'', post_imageUrl = FilePreviewUrl ''img1'',
       post_imageId = ''img1'', location = None, tags = [], likes = ls\<rparr>\<rparr>"

definition example_backend :: backend where
  "example_backend =
     \<lparr>accounts = [ann_account],
      session = Some \<lparr>session_userId = ''a1''\<rparr>,
      collections = (\<lambda>_. [])
        (userCollectionId := [ann, bob],
         postCollectionId := [example_post ''p1'' 10 ''u1'' [''u1''],
                              example_post ''p2'' 30 ''u2'' [],
                              example_post ''p3'' 20 ''u2'' [],
                              example_post ''p4'' 40 ''u1'' []]),
      bucket = [''img1'' \<mapsto> ''picture'', ''avatar'' \<mapsto> ''portrait''],
      clock = 100,
      fulltext = (\<lambda>term text. term = text)\<rparr>"

text \<open>The example world: nothing issued or printed yet, with the faults \<open>fs\<close> to come.\<close>

definition example_world :: "fault list \<Rightarrow> world" where
  "example_world fs =
     \<lparr>remote = example_backend, faults = fs, trace = [], console = [],
      unique = (\<lambda>n. ''new'' @ replicate n CHR ''+''), uniqueCount = 0, race = 0\<rparr>"

definition example_new_post :: INewPost where
  "example_new_post =
     \<lparr>np_userId = ''u1'', np_caption = ''on the road'', np_file = [''photo''],
      np_location = None, np_tags = Some ''nature, travel''\<rparr>"

definition example_update_post :: IUpdatePost where
  "example_update_post =
     \<lparr>up_postId = ''p1'', up_caption = ''on the road'', up_imageId = ''img1'',
      up_imageUrl = FilePreviewUrl ''img1'', up_file = [''photo''],
      up_location = None, up_tags = Some ''nature, travel''\<rparr>"

definition example_update_user :: IUpdateUser where
  "example_update_user =
     \<lparr>uu_userId = ''u1'', uu_name = ''Ann'', uu_username = ''ann'',
      uu_email = ''ann@example.org'', uu_bio = ''hello'', uu_imageId = ''avatar'',
      uu_imageUrl = FilePreviewUrl ''avatar'', uu_file = [''photo'']\<rparr>"

text \<open>What the examples produce, and two readers of a post document.\<close>

definition post_tags :: "document \<Rightarrow> string list option" where
  "post_tags d = (case attrs d of PostAttrs p \<Rightarrow> Some (tags p) | _ \<Rightarrow> None)"

definition post_likes :: "document \<Rightarrow> id list option" where
  "post_likes d = (case attrs d of PostAttrs p \<Rightarrow> Some (likes p) | _ \<Rightarrow> None)"

definition example_created_post :: document where
  "example_created_post = \<lparr>doc_id = ''new+'', createdAt = 100, updatedAt = 100,
     attrs = PostAttrs \<lparr>creator = ''u1'', caption = ''on the road'',
       post_imageUrl = FilePreviewUrl ''new'', post_imageId = ''new'',
       location = None, tags = [''nature'', ''travel''], likes = []\<rparr>\<rparr>"

definition example_updated_post :: document where
  "example_updated_post = \<lparr>doc_id = ''p1'', createdAt = 10, updatedAt = 100,
     attrs = PostAttrs \<lparr>creator = ''u1'', caption = ''on the road'',
       post_imageUrl = FilePreviewUrl ''new'', post_imageId = ''new'',
       location = None, tags = [''nature'', ''travel''], likes = [''u1'']\<rparr>\<rparr>"

definition example_liked_post :: document where
  "example_liked_post = (example_post ''p1'' 10 ''u1'' [''u1'', ''u2''])\<lparr>updatedAt := 100\<rparr>"

definition example_new_user :: INewUser where
  "example_new_user =
     \<lparr>nu_name = ''Cy'', nu_email = ''cy@example.org'', nu_username = ''cy'',
      nu_password = ''secret''\<rparr>"

text \<open>The faults that let two calls through and fail the third, and its falsy twin.\<close>

definition write_rejected :: "fault list" where
  "write_rejected = [Healthy, Healthy, Reject (AppwriteException ''network'')]"

definition write_falsy :: "fault list" where
  "write_falsy = [Healthy, Healthy, Falsy]"

section \<open>Notions the properties are stated with\<close>

text \<open>A backend that answers: no fault is to come.\<close>

definition healthy :: "world \<Rightarrow> bool" where
  "healthy w = (\<forall>f \<in> set (faults w). f = Healthy)"

text \<open>The documents a list query selects, that is, what a healthy backend answers.\<close>

definition list_result :: "backend \<Rightarrow> collection \<Rightarrow> query list \<Rightarrow> document list" where
  "list_result b coll queries =
     (case apply_queries b queries (collections b coll) of Inl _ \<Rightarrow> [] | Inr ds \<Rightarrow> ds)"

text \<open>The users whose posts the home feed asks for: the followed ones, then oneself.\<close>

definition feed_userIds :: "document \<Rightarrow> user_attrs \<Rightarrow> id list" where
  "feed_userIds currentUser u = map followedUser (following u) @ [doc_id currentUser]"

definition creator_query :: "id \<Rightarrow> remote_call \<times> status" where
  "creator_query userId =
     (Databases_listDocuments postCollectionId [Query_equal ''creator'' userId], Resolved)"

text \<open>The page size in force: the argument, or the default of the function.\<close>

definition page_size :: "int \<Rightarrow> int option \<Rightarrow> int" where
  "page_size dflt pageSizeArg = (case pageSizeArg of None \<Rightarrow> dflt | Some n \<Rightarrow> n)"

text \<open>
  The three paginated feeds, each with the read that fetches its full candidate set
  and with its default page size.
\<close>

datatype feed = HomeFeed | ExploreFeed | ProfileFeed id

definition paginated_read :: "feed \<Rightarrow> int \<Rightarrow> int option \<Rightarrow> document list option js" where
  "paginated_read f page pageSizeArg =
     (case f of
        HomeFeed \<Rightarrow> getHomeFeedPosts page pageSizeArg
      | ExploreFeed \<Rightarrow> getExplorePosts page pageSizeArg
      | ProfileFeed userId \<Rightarrow> getUserProfilePosts userId page pageSizeArg)"

definition fetched_candidates :: "feed \<Rightarrow> document list option js" where
  "fetched_candidates f =
     (case f of
        HomeFeed \<Rightarrow> getFollowingPosts
      | ExploreFeed \<Rightarrow> getAllPosts
      | ProfileFeed userId \<Rightarrow>
          await (getUserPosts (Some userId)) (\<lambda>profileUser.
          resolve (map_option documents profileUser)))"

definition default_pageSize :: "feed \<Rightarrow> int" where
  "default_pageSize f = (case f of HomeFeed \<Rightarrow> 3 | ExploreFeed \<Rightarrow> 9 | ProfileFeed _ \<Rightarrow> 6)"

text \<open>
  The full candidate set of a feed, read off the backend: the documents that the list
  queries of its fetching read select. The home feed has one only when somebody is signed
  in and has a user document, the profile feed only for a user id that is not empty.
\<close>

definition candidate_set :: "backend \<Rightarrow> feed \<Rightarrow> document list option" where
  "candidate_set b f =
     (case f of
        HomeFeed \<Rightarrow>
          (case current_account b of
             None \<Rightarrow> None
           | Some a \<Rightarrow>
               (case first (list_result b userCollectionId
                              [Query_equal ''accountId'' (account_id a)]) of
                  None \<Rightarrow> None
                | Some currentUser \<Rightarrow>
                    (case attrs currentUser of
                       UserAttrs u \<Rightarrow>
                         Some (sort_key (\<lambda>d. - createdAt d)
                                 (concat (map (\<lambda>userId. list_result b postCollectionId
                                                            [Query_equal ''creator'' userId])
                                            (feed_userIds currentUser u))))
                     | _ \<Rightarrow> None)))
      | ExploreFeed \<Rightarrow> Some (list_result b postCollectionId [Query_orderDesc ''$updatedAt''])
      | ProfileFeed userId \<Rightarrow>
          (if userId = [] then None
           else Some (list_result b postCollectionId
                        [Query_equal ''creator'' userId, Query_orderDesc ''$createdAt''])))"

text \<open>The errors the calls of a trace were rejected with, in the order of the calls.\<close>

fun rejections :: "(remote_call \<times> status) list \<Rightarrow> js_error list" where
  "rejections [] = []"
| "rejections ((c, Rejected e) # t) = e # rejections t"
| "rejections (_ # t) = rejections t"

definition status_of :: "js_error + 'a option \<Rightarrow> status" where
  "status_of r =
     (case r of Inl e \<Rightarrow> Rejected e | Inr None \<Rightarrow> ResolvedFalsy | Inr (Some _) \<Rightarrow> Resolved)"

text \<open>
  A run from \<open>w\<close> to \<open>w'\<close> with result \<open>r\<close> contains the errors of its calls: the trace
  and the console only grew, every rejection was printed, and after a rejection the
  result is \<open>undefined\<close>. The weaker form asks that one of the rejections was printed.
\<close>

definition contained :: "world \<Rightarrow> js_error + 'a option \<Rightarrow> world \<Rightarrow> bool" where
  "contained w r w' =
     (\<exists>t l. trace w' = trace w @ t \<and> console w' = console w @ l \<and>
        set (rejections t) \<subseteq> set l \<and> (rejections t \<noteq> [] \<longrightarrow> r = Inr None))"

definition contained_one :: "world \<Rightarrow> js_error + 'a option \<Rightarrow> world \<Rightarrow> bool" where
  "contained_one w r w' =
     (\<exists>t l. trace w' = trace w @ t \<and> console w' = console w @ l \<and>
        (rejections t \<noteq> [] \<longrightarrow> set (rejections t) \<inter> set l \<noteq> {} \<and> r = Inr None))"

definition swallows :: "'a option js \<Rightarrow> bool" where
  "swallows m = (\<forall>w r w'. m w = (r, w') \<longrightarrow> contained w r w' \<and> (\<exists>v. r = Inr v))"

definition single_call :: "'a option js \<Rightarrow> bool" where
  "single_call m =
     (\<forall>w r w'. m w = (r, w') \<longrightarrow>
        console w' = console w \<and>
        (\<exists>t. trace w' = trace w @ t \<and>
           rejections t = (case r of Inl e \<Rightarrow> [e] | Inr _ \<Rightarrow> [])))"

text \<open>
  The functions the access layer exports, each with its arguments, and what a caller
  sees of one call: a rejected promise, \<open>undefined\<close>, an error handed back as the value,
  or another value.
\<close>

datatype api_call =
  CreateUserAccount INewUser
| SaveUserToDB db_user
| SignInAccount string string
| SignOutAccount
| CreatePost INewPost
| GetFollowingPosts
| GetHomeFeedPosts int "int option"
| GetAllPosts
| GetExplorePosts int "int option"
| SearchPosts string
| GetPostById "string option"
| GetUserPosts "string option"
| GetUserProfilePosts string int "int option"
| LikePost id "id list"
| SavePost id id
| DeleteSavedPost id
| UpdatePost IUpdatePost
| DeletePost id id
| UploadFile "File option"
| GetFilePreview id
| DeleteFile id
| GetCurrentUser
| GetUserById "string option"
| GetUsers "int option"
| GetAllUsers int "int option"
| UpdateUser IUpdateUser
| FollowUser id id
| UnfollowUser id

datatype outcome = Thrown js_error | ReturnedUndefined | ReturnedError js_error | ReturnedValue

definition observe :: "(js_error + 'a option) \<times> world \<Rightarrow> outcome \<times> world" where
  "observe rw =
     (case rw of
        (Inl e, w) \<Rightarrow> (Thrown e, w)
      | (Inr None, w) \<Rightarrow> (ReturnedUndefined, w)
      | (Inr (Some _), w) \<Rightarrow> (ReturnedValue, w))"

definition observe_or_error ::
  "(js_error + 'a option or_error) \<times> world \<Rightarrow> outcome \<times> world" where
  "observe_or_error rw =
     (case rw of
        (Inl e, w) \<Rightarrow> (Thrown e, w)
      | (Inr (ErrorValue e), w) \<Rightarrow> (ReturnedError e, w)
      | (Inr (Value None), w) \<Rightarrow> (ReturnedUndefined, w)
      | (Inr (Value (Some _)), w) \<Rightarrow> (ReturnedValue, w))"

fun run_api :: "api_call \<Rightarrow> world \<Rightarrow> outcome \<times> world" where
  "run_api (CreateUserAccount user) w = observe_or_error (createUserAccount user w)"
| "run_api (SaveUserToDB user) w = observe (saveUserToDB user w)"
| "run_api (SignInAccount mail password) w = observe (signInAccount mail password w)"
| "run_api SignOutAccount w = observe (signOutAccount w)"
| "run_api (CreatePost post) w = observe (createPost post w)"
| "run_api GetFollowingPosts w = observe (getFollowingPosts w)"
| "run_api (GetHomeFeedPosts page pageSize) w = observe (getHomeFeedPosts page pageSize w)"
| "run_api GetAllPosts w = observe (getAllPosts w)"
| "run_api (GetExplorePosts page pageSize) w = observe (getExplorePosts page pageSize w)"
| "run_api (SearchPosts searchTerm) w = observe (searchPosts searchTerm w)"
| "run_api (GetPostById postId) w = observe (getPostById postId w)"
| "run_api (GetUserPosts userId) w = observe (getUserPosts userId w)"
| "run_api (GetUserProfilePosts userId page pageSize) w =
     observe (getUserProfilePosts userId page pageSize w)"
| "run_api (LikePost postId likesArray) w = observe (likePost postId likesArray w)"
| "run_api (SavePost postId userId) w = observe (savePost postId userId w)"
| "run_api (DeleteSavedPost savedRecordId) w = observe (deleteSavedPost savedRecordId w)"
| "run_api (UpdatePost post) w = observe (updatePost post w)"
| "run_api (DeletePost postId imageId) w = observe (deletePost postId imageId w)"
| "run_api (UploadFile f) w = observe (uploadFile f w)"
| "run_api (GetFilePreview fileId) w = observe (getFilePreview fileId w)"
| "run_api (DeleteFile fileId) w = observe (deleteFile fileId w)"
| "run_api GetCurrentUser w = observe (getCurrentUser w)"
| "run_api (GetUserById userId) w = observe (getUserById userId w)"
| "run_api (GetUsers limit) w = observe (getUsers limit w)"
| "run_api (GetAllUsers page pageSize) w = observe (getAllUsers page pageSize w)"
| "run_api (UpdateUser user) w = observe (updateUser user w)"
| "run_api (FollowUser userId followedUserId) w = observe (followUser userId followedUserId w)"
| "run_api (UnfollowUser followedUserRecord) w = observe (unfollowUser followedUserRecord w)"

text \<open>The one function whose \<open>catch\<close> returns the error, and the two built on \<open>Promise.all\<close>.\<close>

fun returns_caught_error :: "api_call \<Rightarrow> bool" where
  "returns_caught_error (CreateUserAccount _) = True"
| "returns_caught_error _ = False"

fun awaits_Promise_all :: "api_call \<Rightarrow> bool" where
  "awaits_Promise_all GetFollowingPosts = True"
| "awaits_Promise_all (GetHomeFeedPosts _ _) = True"
| "awaits_Promise_all _ = False"

text \<open>Runs the examples of the later sections refer to.\<close>

definition like_rejected :: "outcome \<times> world" where
  "like_rejected =
     run_api (LikePost ''p1'' [''u1'', ''u2''])
       (example_world [Reject (AppwriteException ''network'')])"

text \<open>
  A backend on which both list queries of Ann's feed are rejected, the answer to the
  second one arriving first.
\<close>

definition feed_rejected_twice :: world where
  "feed_rejected_twice =
     (example_world [Healthy, Healthy, Reject (AppwriteException ''timeout''),
                     Reject (AppwriteException ''network'')])\<lparr>race := 1\<rparr>"

definition following_rejected :: "outcome \<times> world" where
  "following_rejected = run_api GetFollowingPosts feed_rejected_twice"

section \<open>Basic facts about the control flow and the SDK\<close>

lemmas js_defs = resolve_def throw_def await_def try_catch_def console_log_def ID_unique_def

lemmas ex_defs = example_world_def example_backend_def example_new_post_def
  example_update_post_def example_update_user_def example_post_def example_new_user_def
  ann_def bob_def ann_attrs_def ann_account_def write_rejected_def write_falsy_def

lemmas file_defs = uploadFile_def getFilePreview_def deleteFile_def storage_createFile_def
  storage_getFilePreview_def storage_deleteFile_def first_def

lemmas db_defs = databases_createDocument_def databases_updateDocument_def
  databases_deleteDocument_def databases_getDocument_def databases_listDocuments_def
  find_document_def

lemma sdk_cases:
  assumes "sdk c op w = (r, w')"
  shows "(\<exists>e. r = Inl e \<and>
            w' = w\<lparr>faults := tl (faults w), trace := trace w @ [(c, Rejected e)]\<rparr>) \<or>
         (r = Inr None \<and>
            w' = w\<lparr>faults := tl (faults w), trace := trace w @ [(c, ResolvedFalsy)]\<rparr>) \<or>
         (\<exists>e b. op (remote w) = (Inl e, b) \<and> r = Inl e \<and>
            w' = w\<lparr>faults := tl (faults w), remote := b,
                    trace := trace w @ [(c, Rejected e)]\<rparr>) \<or>
         (\<exists>x b. op (remote w) = (Inr x, b) \<and> r = Inr (Some x) \<and>
            w' = w\<lparr>faults := tl (faults w), remote := b,
                    trace := trace w @ [(c, Resolved)]\<rparr>)"
proof (cases "case faults w of [] \<Rightarrow> Healthy | f # _ \<Rightarrow> f")
  case Healthy
  obtain r0 b where op: "op (remote w) = (r0, b)"
    by (cases "op (remote w)")
  show ?thesis
  proof (cases r0)
    case (Inl e)
    with assms Healthy op show ?thesis by (auto simp: sdk_def Let_def)
  next
    case (Inr x)
    with assms Healthy op show ?thesis by (auto simp: sdk_def Let_def)
  qed
next
  case Falsy
  with assms show ?thesis by (auto simp: sdk_def Let_def)
next
  case (Reject e)
  with assms show ?thesis by (auto simp: sdk_def Let_def)
qed

lemma sdk_Some:
  "sdk c op w = (Inr (Some x), w') \<Longrightarrow>
     \<exists>b. op (remote w) = (Inr x, b) \<and>
         w' = w\<lparr>faults := tl (faults w), remote := b, trace := trace w @ [(c, Resolved)]\<rparr>"
  by (drule sdk_cases) auto

lemma await_Inr:
  "await m k w = (Inr v, w') \<Longrightarrow> \<exists>x w1. m w = (Inr x, w1) \<and> k x w1 = (Inr v, w')"
  by (auto simp: await_def split: prod.splits sum.splits)

lemma catch_log_Inr:
  "try_catch m (\<lambda>error. await (console_log error) (\<lambda>_. resolve None)) w = (r, w') \<Longrightarrow>
     r = Inr None \<or> (\<exists>v. r = Inr (Some v) \<and> m w = (Inr (Some v), w'))"
  by (auto simp: js_defs split: prod.splits sum.splits option.splits)

lemma find_document_Some:
  "find_document i ds = Some d \<Longrightarrow> d \<in> set ds \<and> doc_id d = i"
  by (auto simp: find_document_def find_Some_iff)

lemma find_map_replace:
  "find (\<lambda>d. doc_id d = i) ds = Some d0 \<Longrightarrow> doc_id d' = i \<Longrightarrow>
     find (\<lambda>d. doc_id d = i) (map (\<lambda>x. if doc_id x = i then d' else x) ds) = Some d'"
  by (induction ds) (auto split: if_splits)

lemma patch_post_tags:
  "patch_attrs a (PostUpdateData cap u i loc ts) = Some a' \<Longrightarrow>
     \<exists>p. a' = PostAttrs p \<and> tags p = ts"
  by (cases a) auto

lemma patch_likes:
  "patch_attrs a (LikesData ls) = Some a' \<Longrightarrow> \<exists>p. a' = PostAttrs p \<and> likes p = ls"
  by (cases a) auto

lemma updateDocument_Some:
  assumes "databases_updateDocument coll i dat w = (Inr (Some d), w')"
  shows "\<exists>d0 a. find_document i (collections (remote w) coll) = Some d0 \<and>
           patch_attrs (attrs d0) dat = Some a \<and>
           d = d0\<lparr>updatedAt := clock (remote w), attrs := a\<rparr> \<and>
           collections (remote w') coll =
             map (\<lambda>x. if doc_id x = i then d else x) (collections (remote w) coll) \<and>
           (\<forall>c. c \<noteq> coll \<longrightarrow> collections (remote w') c = collections (remote w) c) \<and>
           bucket (remote w') = bucket (remote w) \<and>
           trace w' = trace w @ [(Databases_updateDocument coll i dat, Resolved)] \<and>
           console w' = console w"
  using assms
  by (auto simp: databases_updateDocument_def Let_def
      split: option.splits dest!: sdk_Some)

lemma deleteDocument_effect:
  assumes "databases_deleteDocument coll i w = (r, w')"
  shows "bucket (remote w') = bucket (remote w) \<and> console w' = console w \<and>
         (\<forall>c. c \<noteq> coll \<longrightarrow> collections (remote w') c = collections (remote w) c) \<and>
         (\<exists>st. trace w' = trace w @ [(Databases_deleteDocument coll i, st)] \<and>
           (case r of Inl e \<Rightarrow> st = Rejected e | Inr None \<Rightarrow> st = ResolvedFalsy
            | Inr (Some _) \<Rightarrow> st = Resolved) \<and>
           collections (remote w') coll =
             (if st = Resolved then filter (\<lambda>d. doc_id d \<noteq> i) (collections (remote w) coll)
              else collections (remote w) coll))"
  using sdk_cases [OF assms [unfolded databases_deleteDocument_def]]
  by (elim disjE exE conjE) (auto split: option.splits)

section \<open>Tags of a post\<close>

lemma createPost_stored:
  assumes "createPost post w = (Inr (Some d), w')"
  shows "d \<in> set (collections (remote w') postCollectionId) \<and>
         (\<exists>p. attrs d = PostAttrs p \<and> tags p = tags_array (np_tags post))"
  using assms
  by (auto simp: createPost_def js_defs Let_def databases_createDocument_def
      split: prod.splits sum.splits option.splits dest!: sdk_Some)

lemma updatePost_stored:
  assumes "updatePost post w = (Inr (Some d), w')"
  shows "d \<in> set (collections (remote w') postCollectionId) \<and>
         (\<exists>p. attrs d = PostAttrs p \<and> tags p = tags_array (up_tags post))"
  using assms
  by (auto simp: updatePost_def js_defs Let_def
      split: prod.splits sum.splits option.splits if_splits
      dest!: updateDocument_Some find_document_Some patch_post_tags)

lemma createPost_example:
  "fst (createPost example_new_post (example_world [])) = Inr (Some example_created_post)"
  by (simp add: createPost_def js_defs ex_defs file_defs db_defs sdk_def Let_def tags_array_def
      replace_spaces_def example_created_post_def)

lemma updatePost_example:
  "fst (updatePost example_update_post (example_world [])) = Inr (Some example_updated_post)"
  by (simp add: updatePost_def js_defs ex_defs file_defs db_defs sdk_def Let_def tags_array_def
      replace_spaces_def example_updated_post_def)

text \<open>
  Claim C8. The tags string of \<open>createPost\<close> and of \<open>updatePost\<close> is turned into an array
  by removing its space characters and splitting at the commas: \<open>"nature, travel"\<close> gives
  \<open>["nature", "travel"]\<close> and an absent string gives \<open>[]\<close>. The post document that a
  successful \<open>createPost\<close> or \<open>updatePost\<close> returns is in the posts collection afterwards
  and has exactly this array as its tags.
\<close>

theorem tags_stored_as_array:
  "tags_array None = [] \<and>
   tags_array (Some ''nature, travel'') = [''nature'', ''travel''] \<and>
   tags_array (Some s) = split CHR '','' (filter (\<lambda>c. c \<noteq> CHR '' '') s) \<and>
   (createPost post w = (Inr (Some d), w') \<longrightarrow>
      d \<in> set (collections (remote w') postCollectionId) \<and>
      post_tags d = Some (tags_array (np_tags post))) \<and>
   (updatePost upost v = (Inr (Some e), v') \<longrightarrow>
      e \<in> set (collections (remote v') postCollectionId) \<and>
      post_tags e = Some (tags_array (up_tags upost)))"
proof -
  have "tags_array (Some ''nature, travel'') = [''nature'', ''travel'']"
    by (simp add: tags_array_def replace_spaces_def)
  moreover have "tags_array (Some s) = split CHR '','' (filter (\<lambda>c. c \<noteq> CHR '' '') s)"
    by (simp add: tags_array_def replace_spaces_def)
  moreover have "tags_array None = []"
    by (simp add: tags_array_def)
  ultimately show ?thesis
    using createPost_stored [of post w d w'] updatePost_stored [of upost v e v']
    by (auto simp: post_tags_def)
qed

theorem tags_stored_as_array_witness:
  "createPost example_new_post (example_world []) =
     (Inr (Some example_created_post), snd (createPost example_new_post (example_world []))) \<and>
   example_created_post \<in>
     set (collections (remote (snd (createPost example_new_post (example_world []))))
       postCollectionId) \<and>
   post_tags example_created_post = Some [''nature'', ''travel''] \<and>
   updatePost example_update_post (example_world []) =
     (Inr (Some example_updated_post), snd (updatePost example_update_post (example_world []))) \<and>
   example_updated_post \<in>
     set (collections (remote (snd (updatePost example_update_post (example_world []))))
       postCollectionId) \<and>
   post_tags example_updated_post = Some [''nature'', ''travel'']"
proof -
  have c: "createPost example_new_post (example_world []) =
     (Inr (Some example_created_post), snd (createPost example_new_post (example_world [])))"
    by (simp add: prod_eq_iff createPost_example)
  have u: "updatePost example_update_post (example_world []) =
     (Inr (Some example_updated_post), snd (updatePost example_update_post (example_world [])))"
    by (simp add: prod_eq_iff updatePost_example)
  show ?thesis
    using c u
      tags_stored_as_array [of "[]" example_new_post "example_world []" example_created_post
        "snd (createPost example_new_post (example_world []))"
        example_update_post "example_world []" example_updated_post
        "snd (updatePost example_update_post (example_world []))"]
    by (simp add: example_new_post_def example_update_post_def)
qed

section \<open>What \<open>updateUser\<close> returns\<close>

lemma updateUser_undefined: "fst (updateUser user w) = Inr None"
proof -
  obtain r w' where rw: "updateUser user w = (r, w')"
    by (cases "updateUser user w")
  from rw have "r = Inr None"
    unfolding updateUser_def Let_def
    by (auto dest!: catch_log_Inr await_Inr simp: resolve_def throw_def split: if_splits)
  with rw show ?thesis by simp
qed

text \<open>
  Claim C10. \<open>updateUser\<close> returns \<open>undefined\<close> from every world and for every argument,
  whatever the backend answers, so its result does not tell a successful update from a
  failed one. The mutation \<open>useUpdateUser\<close> therefore always resolves with \<open>undefined\<close>,
  and its \<open>onSuccess\<close> invalidates the current-user key and the user-by-id key built from
  \<open>undefined\<close>, never the one built from the identifier of the updated user.
\<close>

theorem updateUser_returns_undefined:
  "fst (updateUser user w) = Inr None \<and>
   fst (mutate useUpdateUser user (w, qc)) = Inr None \<and>
   invalidated (snd (snd (mutate useUpdateUser user (w, qc)))) =
     invalidated qc @ [[Key GET_CURRENT_USER], [Key GET_USER_BY_ID, Param None]]"
  using updateUser_undefined [of user w]
  by (auto simp: mutate_def useUpdateUser_def invalidateQueries_def split: prod.splits sum.splits)

section \<open>Deleting a post\<close>

text \<open>
  Claim C9. \<open>deletePost\<close> with a post identifier and an image identifier that are both
  non-empty issues exactly one call of the SDK, the deletion of the post document. The
  bucket is the same afterwards, so the image file stays in storage; the other
  collections are unchanged, and the posts collection loses the documents with that
  identifier when the call resolved.
\<close>

theorem deletePost_leaves_image:
  assumes "postId \<noteq> []" and "imageId \<noteq> []"
    and "deletePost postId imageId w = (r, w')"
  shows "bucket (remote w') = bucket (remote w) \<and>
         (\<forall>c. c \<noteq> postCollectionId \<longrightarrow> collections (remote w') c = collections (remote w) c) \<and>
         (\<exists>st. trace w' = trace w @ [(Databases_deleteDocument postCollectionId postId, st)] \<and>
            collections (remote w') postCollectionId =
              (if st = Resolved
               then filter (\<lambda>d. doc_id d \<noteq> postId) (collections (remote w) postCollectionId)
               else collections (remote w) postCollectionId))"
proof -
  obtain r1 w1 where d: "databases_deleteDocument postCollectionId postId w = (r1, w1)"
    by (cases "databases_deleteDocument postCollectionId postId w")
  from assms d have "bucket (remote w') = bucket (remote w1)"
    and "collections (remote w') = collections (remote w1)" and "trace w' = trace w1"
    by (auto simp: deletePost_def js_defs split: sum.splits)
  with deleteDocument_effect [OF d] show ?thesis
    by auto
qed

theorem deletePost_leaves_image_witness:
  "''p1'' \<noteq> [] \<and> ''img1'' \<noteq> [] \<and>
   bucket (remote (snd (deletePost ''p1'' ''img1'' (example_world [])))) = bucket example_backend \<and>
   bucket example_backend ''img1'' = Some ''picture'' \<and>
   trace (snd (deletePost ''p1'' ''img1'' (example_world []))) =
     [(Databases_deleteDocument postCollectionId ''p1'', Resolved)] \<and>
   map doc_id (collections (remote (snd (deletePost ''p1'' ''img1'' (example_world []))))
     postCollectionId) = [''p2'', ''p3'', ''p4'']"
proof -
  have t: "trace (snd (deletePost ''p1'' ''img1'' (example_world []))) =
     [(Databases_deleteDocument postCollectionId ''p1'', Resolved)]"
    by (simp add: deletePost_def js_defs db_defs sdk_def ex_defs)
  have "deletePost ''p1'' ''img1'' (example_world []) =
     (fst (deletePost ''p1'' ''img1'' (example_world [])),
      snd (deletePost ''p1'' ''img1'' (example_world [])))"
    by simp
  from deletePost_leaves_image [OF _ _ this] t show ?thesis
    by (simp add: ex_defs)
qed

section \<open>Liking a post\<close>

lemma likePost_Some:
  assumes "likePost postId likesArray w = (Inr (Some d), w')"
  shows "databases_updateDocument postCollectionId postId (LikesData likesArray) w =
           (Inr (Some d), w')"
  using assms
  by (auto simp: likePost_def js_defs split: prod.splits sum.splits option.splits)

text \<open>
  Claim C5. When \<open>likePost\<close> succeeds, the document it returns is the post with the
  given identifier, its likes are exactly the array passed, and it is the document
  stored under that identifier afterwards. The mutation \<open>useLikePost\<close> then invalidates
  the post-by-id key of that identifier, the home-feed key and the current-user key.
\<close>

theorem likePost_stores_likes:
  assumes "likePost postId likesArray w = (Inr (Some d), w')"
  shows "doc_id d = postId \<and> post_likes d = Some likesArray \<and>
         find_document postId (collections (remote w') postCollectionId) = Some d \<and>
         mutate useLikePost (postId, likesArray) (w, qc) =
           (Inr (Some d), w',
            qc\<lparr>invalidated := invalidated qc @
              [[Key GET_POST_BY_ID, Param (Some postId)], [Key GET_HOME_FEED_POSTS],
               [Key GET_CURRENT_USER]]\<rparr>)"
proof -
  from likePost_Some [OF assms] obtain d0 a where
    f: "find_document postId (collections (remote w) postCollectionId) = Some d0" and
    p: "patch_attrs (attrs d0) (LikesData likesArray) = Some a" and
    d: "d = d0\<lparr>updatedAt := clock (remote w), attrs := a\<rparr>" and
    c: "collections (remote w') postCollectionId =
          map (\<lambda>x. if doc_id x = postId then d else x) (collections (remote w) postCollectionId)"
    by (auto dest!: updateDocument_Some)
  from f have i: "doc_id d = postId"
    by (auto simp: d dest: find_document_Some)
  from p have l: "post_likes d = Some likesArray"
    by (auto simp: d post_likes_def dest!: patch_likes)
  from f i have "find_document postId (collections (remote w') postCollectionId) = Some d"
    unfolding c find_document_def by (rule find_map_replace)
  with i l assms show ?thesis
    by (simp add: mutate_def useLikePost_def invalidateQueries_def)
qed

theorem likePost_stores_likes_witness:
  "likePost ''p1'' [''u1'', ''u2''] (example_world []) =
     (Inr (Some example_liked_post), snd (likePost ''p1'' [''u1'', ''u2''] (example_world []))) \<and>
   post_likes (example_post ''p1'' 10 ''u1'' [''u1'']) = Some [''u1''] \<and>
   post_likes example_liked_post = Some [''u1'', ''u2''] \<and>
   find_document ''p1''
     (collections (remote (snd (likePost ''p1'' [''u1'', ''u2''] (example_world []))))
        postCollectionId) = Some example_liked_post \<and>
   invalidated (snd (snd (mutate useLikePost (''p1'', [''u1'', ''u2''])
       (example_world [], \<lparr>invalidated = []\<rparr>)))) =
     [[Key GET_POST_BY_ID, Param (Some ''p1'')], [Key GET_HOME_FEED_POSTS],
      [Key GET_CURRENT_USER]]"
proof -
  have "fst (likePost ''p1'' [''u1'', ''u2''] (example_world [])) = Inr (Some example_liked_post)"
    by (simp add: likePost_def js_defs db_defs sdk_def ex_defs example_liked_post_def Let_def)
  then have r: "likePost ''p1'' [''u1'', ''u2''] (example_world []) =
     (Inr (Some example_liked_post), snd (likePost ''p1'' [''u1'', ''u2''] (example_world [])))"
    by (simp add: prod_eq_iff)
  from likePost_stores_likes [OF r, of "\<lparr>invalidated = []\<rparr>"] r show ?thesis
    by (simp add: post_likes_def example_post_def)
qed

section \<open>Reads bound to an empty identifier\<close>

text \<open>
  Claim C6, as stated, fails in two places. \<open>getPostById(undefined)\<close> issues no call,
  but its \<open>throw\<close> stands before the \<open>try\<close> and rejects the promise the caller holds;
  and \<open>searchPosts("")\<close> has no test of its argument and issues the list query.
\<close>

theorem empty_identifier_counterexample:
  "fst (getPostById None (example_world [])) = Inl ErrorConstructor \<and>
   trace (snd (searchPosts [] (example_world []))) =
     [(Databases_listDocuments postCollectionId [Query_search ''caption'' []], Resolved)]"
  by (simp add: getPostById_def searchPosts_def falsy_string_def js_defs db_defs sdk_def ex_defs)

text \<open>
  Claim C6, amended. For an identifier that is empty or \<open>undefined\<close>, \<open>getUserById\<close>,
  \<open>getUserPosts\<close> and \<open>getUserProfilePosts\<close> return \<open>undefined\<close> at once and leave the
  world as it was, so no call is issued; \<open>getPostById\<close> issues no call either and
  rejects with \<open>Error\<close>. In the query layer the hooks \<open>useGetPostById\<close>,
  \<open>useGetUserPosts\<close>, \<open>useGetUserById\<close> and \<open>useSearchPosts\<close> are disabled for such an
  identifier: their query function is not called and the world is unchanged.
\<close>

theorem empty_identifier_guards:
  assumes "falsy_string i"
  shows "getUserById i w = (Inr None, w) \<and>
         getUserPosts i w = (Inr None, w) \<and>
         getPostById i w = (Inl ErrorConstructor, w) \<and>
         fetch (useGetPostById i) w = (None, w) \<and>
         fetch (useGetUserPosts i) w = (None, w) \<and>
         getUserProfilePosts [] page pageSize w = (Inr None, w) \<and>
         fetch (useGetUserById []) w = (None, w) \<and>
         fetch (useSearchPosts []) w = (None, w)"
  using assms
  by (simp add: getUserById_def getUserPosts_def getPostById_def getUserProfilePosts_def
      fetch_def useGetPostById_def useGetUserPosts_def useGetUserById_def useSearchPosts_def
      falsy_string_def js_defs Let_def)

theorem empty_identifier_guards_witness:
  "falsy_string None \<and>
   getUserById None (example_world []) = (Inr None, example_world []) \<and>
   getPostById None (example_world []) = (Inl ErrorConstructor, example_world []) \<and>
   fetch (useGetPostById None) (example_world []) = (None, example_world [])"
  using empty_identifier_guards [of None "example_world []"]
  by (simp add: falsy_string_def)

section \<open>A write that fails after the upload\<close>

text \<open>
  Claim C2. In the example the upload and the preview succeed and the backend rejects
  \<open>createDocument\<close>, which is how the SDK reports a failed write. \<open>createPost\<close> prints
  the error and returns \<open>undefined\<close>; its trace ends with the rejected write, no
  \<open>deleteFile\<close> is issued, and the uploaded file \<open>new\<close> is still in the bucket. Only when
  the write resolves with a falsy value does the function reach its compensating
  \<open>deleteFile\<close>, which then removes the file.
\<close>

theorem createPost_write_rejected:
  "fst (createPost example_new_post (example_world write_rejected)) = Inr None \<and>
   trace (snd (createPost example_new_post (example_world write_rejected))) =
     [(Storage_createFile ''new'' (Some ''photo''), Resolved),
      (Storage_getFilePreview ''new'', Resolved),
      (Databases_createDocument postCollectionId ''new+''
         (PostData ''u1'' ''on the road'' (FilePreviewUrl ''new'') ''new'' None
            [''nature'', ''travel'']),
       Rejected (AppwriteException ''network''))] \<and>
   bucket (remote (snd (createPost example_new_post (example_world write_rejected)))) ''new'' =
     Some ''photo'' \<and>
   map fst (trace (snd (createPost example_new_post (example_world write_falsy)))) =
     [Storage_createFile ''new'' (Some ''photo''), Storage_getFilePreview ''new'',
      Databases_createDocument postCollectionId ''new+''
         (PostData ''u1'' ''on the road'' (FilePreviewUrl ''new'') ''new'' None
            [''nature'', ''travel'']),
      Storage_deleteFile ''new''] \<and>
   bucket (remote (snd (createPost example_new_post (example_world write_falsy)))) ''new'' = None"
  by (simp add: createPost_def js_defs ex_defs file_defs db_defs sdk_def Let_def tags_array_def
      replace_spaces_def)

section \<open>Replacing an image\<close>

text \<open>
  Claim C3. \<open>updatePost\<close> with a replacement file on a healthy backend succeeds, issues
  no \<open>deleteFile\<close>, and leaves the old file \<open>img1\<close> in the bucket. When its write resolves
  falsy, it deletes \<open>post.imageId\<close>, the old file, and the new file \<open>new\<close> stays.
  \<open>updateUser\<close>, its sibling, deletes the old file \<open>avatar\<close> after a successful update and
  keeps the new one.
\<close>

theorem updatePost_keeps_old_file:
  "fst (updatePost example_update_post (example_world [])) = Inr (Some example_updated_post) \<and>
   map fst (trace (snd (updatePost example_update_post (example_world [])))) =
     [Storage_createFile ''new'' (Some ''photo''), Storage_getFilePreview ''new'',
      Databases_updateDocument postCollectionId ''p1''
        (PostUpdateData ''on the road'' (FilePreviewUrl ''new'') ''new'' None
           [''nature'', ''travel''])] \<and>
   bucket (remote (snd (updatePost example_update_post (example_world [])))) ''img1'' =
     Some ''picture'' \<and>
   fst (updatePost example_update_post (example_world write_falsy)) = Inr None \<and>
   bucket (remote (snd (updatePost example_update_post (example_world write_falsy))))
     ''img1'' = None \<and>
   bucket (remote (snd (updatePost example_update_post (example_world write_falsy))))
     ''new'' = Some ''photo'' \<and>
   map fst (trace (snd (updateUser example_update_user (example_world [])))) =
     [Storage_createFile ''new'' (Some ''photo''), Storage_getFilePreview ''new'',
      Databases_updateDocument userCollectionId ''u1''
        (UserUpdateData ''Ann'' ''ann'' ''ann@example.org'' ''hello''
           (FilePreviewUrl ''new'') ''new''),
      Account_updateName ''Ann'', Storage_deleteFile ''avatar''] \<and>
   bucket (remote (snd (updateUser example_update_user (example_world [])))) ''avatar'' = None \<and>
   bucket (remote (snd (updateUser example_update_user (example_world [])))) ''new'' =
     Some ''photo''"
  by (simp add: updatePost_def updateUser_def js_defs ex_defs file_defs db_defs sdk_def Let_def
      tags_array_def replace_spaces_def example_updated_post_def account_updateName_def
      current_account_def)

section \<open>The home feed on a healthy backend\<close>

lemmas read_defs = getHomeFeedPosts_def getFollowingPosts_def Promise_all_def getCurrentUser_def
  getExplorePosts_def getAllPosts_def account_get_def current_account_def
  string_attr_def time_attr_def

lemma slice_window:
  assumes "1 \<le> page" and "0 \<le> psz"
  shows "slice xs ((page - 1) * psz) ((page - 1) * psz + psz) =
           take (nat psz) (drop (nat ((page - 1) * psz)) xs)"
proof -
  have s: "0 \<le> (page - 1) * psz"
    using assms by simp
  show ?thesis
  proof (cases "(page - 1) * psz \<le> int (length xs)")
    case True
    then have "take (nat (min ((page - 1) * psz + psz) (int (length xs)) - (page - 1) * psz))
        (drop (nat ((page - 1) * psz)) xs) = take (nat psz) (drop (nat ((page - 1) * psz)) xs)"
      using s assms(2) by (intro take_equalityI) (auto simp: min_def)
    with True s assms(2) show ?thesis
      by (simp add: slice_def Let_def min_def)
  next
    case False
    with s assms(2) show ?thesis
      by (simp add: slice_def Let_def min_def)
  qed
qed

lemma healthy_sdk:
  assumes "healthy w" and "op (remote w) = (Inr x, b)"
  shows "sdk c op w =
           (Inr (Some x), w\<lparr>faults := tl (faults w), remote := b,
                             trace := trace w @ [(c, Resolved)]\<rparr>)"
  using assms by (cases "faults w") (auto simp: sdk_def healthy_def Let_def)

lemma healthy_tl:
  "healthy w \<Longrightarrow> faults w' = tl (faults w) \<Longrightarrow> healthy w'"
  by (cases "faults w") (auto simp: healthy_def)

lemma healthy_listDocuments:
  assumes "healthy w"
    and "apply_queries (remote w) qs (collections (remote w) coll) = Inr ds"
  shows "databases_listDocuments coll qs w =
           (Inr (Some \<lparr>total = length ds, documents = ds\<rparr>),
            w\<lparr>faults := tl (faults w), remote := remote w,
              trace := trace w @ [(Databases_listDocuments coll qs, Resolved)]\<rparr>)"
  unfolding databases_listDocuments_def
  by (rule healthy_sdk [OF assms(1)]) (simp add: assms(2))


lemma apply_equal:
  "apply_queries b [Query_equal a v] ds = Inr (filter (\<lambda>d. string_attr a d = Some v) ds)"
  by simp

lemma list_result_equal:
  "list_result b coll [Query_equal a v] =
     filter (\<lambda>d. string_attr a d = Some v) (collections b coll)"
  by (simp add: list_result_def)

lemma healthy_list_equal:
  assumes "healthy w"
  shows "\<exists>w'. databases_listDocuments coll [Query_equal a v] w =
           (Inr (Some \<lparr>total = length (list_result (remote w) coll [Query_equal a v]),
                        documents = list_result (remote w) coll [Query_equal a v]\<rparr>), w') \<and>
         healthy w' \<and> remote w' = remote w \<and> console w' = console w \<and>
         trace w' = trace w @ [(Databases_listDocuments coll [Query_equal a v], Resolved)]"
  using healthy_listDocuments [OF assms apply_equal] healthy_tl [OF assms]
  by (simp add: list_result_equal)


lemma rejected_map_Inr: "rejected (map (\<lambda>x. Inr (f x)) xs) = []"
  by (induction xs) simp_all

lemma fulfilled_map_Inr: "fulfilled (map (\<lambda>x. Inr (f x)) xs) = map f xs"
  by (induction xs) simp_all

lemma healthy_issue_all:
  assumes "healthy w"
  shows "\<exists>w'. issue_all
            (map (\<lambda>userId. databases_listDocuments postCollectionId
                              [Query_equal ''creator'' userId]) ids) w =
           (map (\<lambda>userId. Inr (Some
                   \<lparr>total = length (list_result (remote w) postCollectionId
                                      [Query_equal ''creator'' userId]),
                    documents = list_result (remote w) postCollectionId
                                      [Query_equal ''creator'' userId]\<rparr>)) ids, w') \<and>
         healthy w' \<and> remote w' = remote w \<and> console w' = console w \<and>
         trace w' = trace w @ map creator_query ids"
  using assms
proof (induction ids arbitrary: w)
  case Nil
  then show ?case by simp
next
  case (Cons i ids)
  from healthy_list_equal [OF Cons.prems, of postCollectionId "''creator''" i]
  obtain w1 where
    1: "databases_listDocuments postCollectionId [Query_equal ''creator'' i] w =
          (Inr (Some \<lparr>total = length (list_result (remote w) postCollectionId
                                       [Query_equal ''creator'' i]),
                       documents = list_result (remote w) postCollectionId
                                       [Query_equal ''creator'' i]\<rparr>), w1)"
    and h: "healthy w1" and r: "remote w1 = remote w" and c: "console w1 = console w"
    and t: "trace w1 = trace w @ [creator_query i]"
    by (auto simp: creator_query_def)
  from Cons.IH [OF h] obtain w2 where
    2: "issue_all
            (map (\<lambda>userId. databases_listDocuments postCollectionId
                              [Query_equal ''creator'' userId]) ids) w1 =
           (map (\<lambda>userId. Inr (Some
                   \<lparr>total = length (list_result (remote w1) postCollectionId
                                      [Query_equal ''creator'' userId]),
                    documents = list_result (remote w1) postCollectionId
                                      [Query_equal ''creator'' userId]\<rparr>)) ids, w2)"
    and h2: "healthy w2" and r2: "remote w2 = remote w1" and c2: "console w2 = console w1"
    and t2: "trace w2 = trace w1 @ map creator_query ids"
    by blast
  show ?case
    using 1 2 h2 r2 c2 t2 r c t by simp
qed

lemma healthy_Promise_all:
  assumes "healthy w"
  shows "\<exists>w'. Promise_all
            (map (\<lambda>userId. databases_listDocuments postCollectionId
                              [Query_equal ''creator'' userId]) ids) w =
           (Inr (map (\<lambda>userId. Some
                   \<lparr>total = length (list_result (remote w) postCollectionId
                                      [Query_equal ''creator'' userId]),
                    documents = list_result (remote w) postCollectionId
                                      [Query_equal ''creator'' userId]\<rparr>) ids), w') \<and>
         healthy w' \<and> remote w' = remote w \<and> console w' = console w \<and>
         trace w' = trace w @ map creator_query ids"
proof -
  from healthy_issue_all [OF assms, of ids] obtain w' where
    i: "issue_all
            (map (\<lambda>userId. databases_listDocuments postCollectionId
                              [Query_equal ''creator'' userId]) ids) w =
           (map (\<lambda>userId. Inr (Some
                   \<lparr>total = length (list_result (remote w) postCollectionId
                                      [Query_equal ''creator'' userId]),
                    documents = list_result (remote w) postCollectionId
                                      [Query_equal ''creator'' userId]\<rparr>)) ids, w')"
    and rest: "healthy w'" "remote w' = remote w" "console w' = console w"
      "trace w' = trace w @ map creator_query ids"
    by blast
  from i have "Promise_all
            (map (\<lambda>userId. databases_listDocuments postCollectionId
                              [Query_equal ''creator'' userId]) ids) w =
           (Inr (map (\<lambda>userId. Some
                   \<lparr>total = length (list_result (remote w) postCollectionId
                                      [Query_equal ''creator'' userId]),
                    documents = list_result (remote w) postCollectionId
                                      [Query_equal ''creator'' userId]\<rparr>) ids), w')"
    by (simp add: Promise_all_def rejected_map_Inr fulfilled_map_Inr)
  with rest show ?thesis by blast
qed

lemma those_map_Some: "those (map (\<lambda>x. Some (f x)) xs) = Some (map f xs)"
  by (induction xs) auto

lemma healthy_getCurrentUser:
  assumes "healthy w" and "current_account (remote w) = Some a"
  shows "\<exists>w'. getCurrentUser w =
           (Inr (first (list_result (remote w) userCollectionId
                          [Query_equal ''accountId'' (account_id a)])), w') \<and>
         healthy w' \<and> remote w' = remote w \<and> console w' = console w \<and>
         trace w' = trace w @
           [(Account_get, Resolved),
            (Databases_listDocuments userCollectionId
               [Query_equal ''accountId'' (account_id a)], Resolved)]"
proof -
  have g: "account_get w =
      (Inr (Some a), w\<lparr>faults := tl (faults w), remote := remote w,
                        trace := trace w @ [(Account_get, Resolved)]\<rparr>)"
    unfolding account_get_def
    by (rule healthy_sdk [OF assms(1)]) (simp add: assms(2))
  define w1 where "w1 = w\<lparr>faults := tl (faults w), remote := remote w,
                        trace := trace w @ [(Account_get, Resolved)]\<rparr>"
  have h1: "healthy w1"
    by (rule healthy_tl [OF assms(1)]) (simp add: w1_def)
  from healthy_list_equal [OF h1, of userCollectionId "''accountId''" "account_id a"]
  obtain w2 where
    l: "databases_listDocuments userCollectionId [Query_equal ''accountId'' (account_id a)] w1 =
          (Inr (Some \<lparr>total = length (list_result (remote w1) userCollectionId
                                        [Query_equal ''accountId'' (account_id a)]),
                       documents = list_result (remote w1) userCollectionId
                                        [Query_equal ''accountId'' (account_id a)]\<rparr>), w2)"
    and h2: "healthy w2" and r2: "remote w2 = remote w1" and c2: "console w2 = console w1"
    and t2: "trace w2 = trace w1 @
           [(Databases_listDocuments userCollectionId
               [Query_equal ''accountId'' (account_id a)], Resolved)]"
    by blast
  have "getCurrentUser w =
          (Inr (first (list_result (remote w1) userCollectionId
                          [Query_equal ''accountId'' (account_id a)])), w2)"
    using g l by (simp add: getCurrentUser_def js_defs w1_def)
  with h2 r2 c2 t2 show ?thesis
    by (simp add: w1_def)
qed



lemma healthy_getFollowingPosts:
  assumes "healthy w" and "current_account (remote w) = Some a"
    and "first (list_result (remote w) userCollectionId
                  [Query_equal ''accountId'' (account_id a)]) = Some currentUser"
    and "attrs currentUser = UserAttrs u"
  shows "\<exists>w'. getFollowingPosts w =
           (Inr (Some (sort_key (\<lambda>d. - createdAt d)
              (concat (map (\<lambda>userId. list_result (remote w) postCollectionId
                                         [Query_equal ''creator'' userId])
                         (feed_userIds currentUser u))))), w') \<and>
         healthy w' \<and> remote w' = remote w \<and> console w' = console w \<and>
         trace w' = trace w @
           [(Account_get, Resolved),
            (Databases_listDocuments userCollectionId
               [Query_equal ''accountId'' (account_id a)], Resolved)] @
           map creator_query (feed_userIds currentUser u)"
proof -
  from healthy_getCurrentUser [OF assms(1,2)] assms(3) obtain w1 where
    g: "getCurrentUser w = (Inr (Some currentUser), w1)"
    and h1: "healthy w1" and r1: "remote w1 = remote w" and c1: "console w1 = console w"
    and t1: "trace w1 = trace w @
           [(Account_get, Resolved),
            (Databases_listDocuments userCollectionId
               [Query_equal ''accountId'' (account_id a)], Resolved)]"
    by auto
  from healthy_Promise_all [OF h1, of "feed_userIds currentUser u"] obtain w2 where
    p: "Promise_all
            (map (\<lambda>userId. databases_listDocuments postCollectionId
                              [Query_equal ''creator'' userId]) (feed_userIds currentUser u)) w1 =
           (Inr (map (\<lambda>userId. Some
                   \<lparr>total = length (list_result (remote w1) postCollectionId
                                      [Query_equal ''creator'' userId]),
                    documents = list_result (remote w1) postCollectionId
                                      [Query_equal ''creator'' userId]\<rparr>)
                   (feed_userIds currentUser u)), w2)"
    and h2: "healthy w2" and r2: "remote w2 = remote w1" and c2: "console w2 = console w1"
    and t2: "trace w2 = trace w1 @ map creator_query (feed_userIds currentUser u)"
    by blast
  have "getFollowingPosts w =
           (Inr (Some (sort_key (\<lambda>d. - createdAt d)
              (concat (map (\<lambda>userId. list_result (remote w1) postCollectionId
                                         [Query_equal ''creator'' userId])
                         (feed_userIds currentUser u))))), w2)"
    using g p assms(4)
    by (simp add: getFollowingPosts_def js_defs Let_def feed_userIds_def [symmetric]
        those_map_Some comp_def del: map_append)
  with h2 r1 c1 t1 r2 c2 t2 show ?thesis
    by simp
qed

text \<open>
  Claim C1. Let the backend be healthy, the session belong to an account whose user
  document is \<open>currentUser\<close>, and let that user follow someone. For a page number from 1
  on and a page size that is not negative, \<open>getHomeFeedPosts\<close> returns the page window
  \<open>[(page - 1) * pageSize, (page - 1) * pageSize + pageSize)\<close> of a list \<open>merged\<close> that
  holds exactly the documents of the list-query results, one query per followed user and
  one for the current user, in descending order of creation time. The calls it issued
  are the two of \<open>getCurrentUser\<close> and these list queries, one each.
\<close>

theorem home_feed_is_merged_page:
  assumes "healthy w" and "current_account (remote w) = Some a"
    and "first (list_result (remote w) userCollectionId
                  [Query_equal ''accountId'' (account_id a)]) = Some currentUser"
    and "attrs currentUser = UserAttrs u"
    and "following u \<noteq> []"
    and "1 \<le> page" and "0 \<le> page_size 3 pageSizeArg"
  shows "\<exists>merged w'.
           getHomeFeedPosts page pageSizeArg w =
             (Inr (Some (take (nat (page_size 3 pageSizeArg))
                (drop (nat ((page - 1) * page_size 3 pageSizeArg)) merged))), w') \<and>
           mset merged =
             mset (concat (map (\<lambda>userId. list_result (remote w) postCollectionId
                                             [Query_equal ''creator'' userId])
                             (map followedUser (following u) @ [doc_id currentUser]))) \<and>
           sorted_wrt (\<lambda>x y. createdAt x \<ge> createdAt y) merged \<and>
           map fst (drop (length (trace w)) (trace w')) =
             [Account_get,
              Databases_listDocuments userCollectionId
                [Query_equal ''accountId'' (account_id a)]] @
             map (\<lambda>userId. Databases_listDocuments postCollectionId
                              [Query_equal ''creator'' userId])
               (map followedUser (following u) @ [doc_id currentUser])"
proof -
  let ?lists = "concat (map (\<lambda>userId. list_result (remote w) postCollectionId
                                             [Query_equal ''creator'' userId])
                             (feed_userIds currentUser u))"
  let ?merged = "sort_key (\<lambda>d. - createdAt d) ?lists"
  from healthy_getFollowingPosts [OF assms(1-4)] obtain w' where
    g: "getFollowingPosts w = (Inr (Some ?merged), w')"
    and t: "trace w' = trace w @
           [(Account_get, Resolved),
            (Databases_listDocuments userCollectionId
               [Query_equal ''accountId'' (account_id a)], Resolved)] @
           map creator_query (feed_userIds currentUser u)"
    by blast
  have "getHomeFeedPosts page pageSizeArg w =
          (Inr (Some (slice ?merged ((page - 1) * page_size 3 pageSizeArg)
                        ((page - 1) * page_size 3 pageSizeArg + page_size 3 pageSizeArg))), w')"
    using g by (simp add: getHomeFeedPosts_def js_defs Let_def page_size_def)
  then have 1: "getHomeFeedPosts page pageSizeArg w =
             (Inr (Some (take (nat (page_size 3 pageSizeArg))
                (drop (nat ((page - 1) * page_size 3 pageSizeArg)) ?merged))), w')"
    using slice_window [OF assms(6,7)] by simp
  have 2: "mset ?merged = mset ?lists"
    by simp
  have "sorted (map (\<lambda>d. - createdAt d) ?merged)"
    by (rule sorted_sort_key)
  then have 3: "sorted_wrt (\<lambda>x y. createdAt x \<ge> createdAt y) ?merged"
    by (simp add: sorted_map)
  have 4: "map fst (drop (length (trace w)) (trace w')) =
             [Account_get,
              Databases_listDocuments userCollectionId
                [Query_equal ''accountId'' (account_id a)]] @
             map (\<lambda>userId. Databases_listDocuments postCollectionId
                              [Query_equal ''creator'' userId])
               (feed_userIds currentUser u)"
    by (simp add: t creator_query_def comp_def)
  from 1 2 3 4 show ?thesis
    unfolding feed_userIds_def by blast
qed

lemma home_feed_example:
  "fst (getHomeFeedPosts 1 None (example_world [])) =
     Inr (Some [example_post ''p4'' 40 ''u1'' [], example_post ''p2'' 30 ''u2'' [],
                example_post ''p3'' 20 ''u2'' []])"
  by (simp add: read_defs js_defs db_defs sdk_def ex_defs Let_def first_def slice_def)

theorem home_feed_is_merged_page_witness:
  "healthy (example_world []) \<and>
   current_account (remote (example_world [])) = Some ann_account \<and>
   first (list_result (remote (example_world [])) userCollectionId
            [Query_equal ''accountId'' (account_id ann_account)]) = Some ann \<and>
   attrs ann = UserAttrs ann_attrs \<and>
   following ann_attrs \<noteq> [] \<and>
   (1::int) \<le> 1 \<and> 0 \<le> page_size 3 None \<and>
   (\<exists>merged.
      fst (getHomeFeedPosts 1 None (example_world [])) = Inr (Some (take 3 merged)) \<and>
      mset merged =
        mset (list_result example_backend postCollectionId [Query_equal ''creator'' ''u2''] @
              list_result example_backend postCollectionId [Query_equal ''creator'' ''u1'']) \<and>
      sorted_wrt (\<lambda>x y. createdAt x \<ge> createdAt y) merged) \<and>
   map_option (map doc_id)
     (projr (fst (getHomeFeedPosts 1 None (example_world [])))) = Some [''p4'', ''p2'', ''p3'']"
proof -
  have 1: "healthy (example_world [])"
    by (simp add: healthy_def example_world_def)
  have 2: "current_account (remote (example_world [])) = Some ann_account"
    by (simp add: current_account_def ex_defs)
  have 3: "first (list_result (remote (example_world [])) userCollectionId
            [Query_equal ''accountId'' (account_id ann_account)]) = Some ann"
    by (simp add: list_result_def first_def string_attr_def ex_defs)
  have 4: "attrs ann = UserAttrs ann_attrs"
    by (simp add: ann_def)
  have 5: "following ann_attrs \<noteq> []"
    by (simp add: ann_attrs_def)
  have 6: "(1::int) \<le> 1" by simp
  have 7: "0 \<le> page_size 3 None"
    by (simp add: page_size_def)
  from home_feed_is_merged_page [OF 1 2 3 4 5 6 7] obtain merged w' where
    g: "getHomeFeedPosts 1 None (example_world []) =
          (Inr (Some (take (nat (page_size 3 None))
             (drop (nat ((1 - 1) * page_size 3 None)) merged))), w')"
    and m: "mset merged =
             mset (concat (map (\<lambda>userId. list_result (remote (example_world [])) postCollectionId
                                             [Query_equal ''creator'' userId])
                             (map followedUser (following ann_attrs) @ [doc_id ann])))"
    and s: "sorted_wrt (\<lambda>x y. createdAt x \<ge> createdAt y) merged"
    by blast
  from g have g': "fst (getHomeFeedPosts 1 None (example_world [])) = Inr (Some (take 3 merged))"
    by (simp add: page_size_def)
  from m have m': "mset merged =
        mset (list_result example_backend postCollectionId [Query_equal ''creator'' ''u2''] @
              list_result example_backend postCollectionId [Query_equal ''creator'' ''u1''])"
    by (simp add: ann_attrs_def ann_def example_world_def)
  have e: "map_option (map doc_id)
     (projr (fst (getHomeFeedPosts 1 None (example_world [])))) = Some [''p4'', ''p2'', ''p3'']"
    by (simp add: home_feed_example example_post_def)
  from 1 2 3 4 5 6 7 g' m' s e show ?thesis
    by blast
qed

section \<open>Paginated reads\<close>

lemma listDocuments_Some:
  assumes "databases_listDocuments coll qs w = (Inr (Some dl), w')"
  shows "documents dl = list_result (remote w) coll qs \<and> remote w' = remote w \<and>
         console w' = console w \<and>
         trace w' = trace w @ [(Databases_listDocuments coll qs, Resolved)]"
  using sdk_Some [OF assms [unfolded databases_listDocuments_def]]
  by (auto simp: list_result_def split: sum.splits)

lemma account_get_Some:
  assumes "account_get w = (Inr (Some a), w')"
  shows "current_account (remote w) = Some a \<and> remote w' = remote w"
  using sdk_Some [OF assms [unfolded account_get_def]]
  by (auto split: option.splits)

lemma getCurrentUser_Some:
  assumes "getCurrentUser w = (Inr (Some cu), w')"
  shows "\<exists>a. current_account (remote w) = Some a \<and>
             first (list_result (remote w) userCollectionId
                      [Query_equal ''accountId'' (account_id a)]) = Some cu \<and>
             remote w' = remote w"
  using assms unfolding getCurrentUser_def
  by (auto dest!: catch_log_Inr await_Inr account_get_Some listDocuments_Some
      simp: resolve_def throw_def split: option.splits)

lemma issue_all_Some:
  assumes "issue_all
            (map (\<lambda>userId. databases_listDocuments postCollectionId
                              [Query_equal ''creator'' userId]) ids) w = (rs, w')"
    and "rejected rs = []" and "those (fulfilled rs) = Some fetched"
  shows "map documents fetched =
           map (\<lambda>userId. list_result (remote w) postCollectionId
                            [Query_equal ''creator'' userId]) ids \<and>
         remote w' = remote w"
  using assms
proof (induction ids arbitrary: w rs fetched w')
  case Nil
  then show ?case by auto
next
  case (Cons i ids)
  obtain r w1 where 1: "databases_listDocuments postCollectionId
                          [Query_equal ''creator'' i] w = (r, w1)"
    by (cases "databases_listDocuments postCollectionId [Query_equal ''creator'' i] w")
  obtain rs' w2 where 2: "issue_all
            (map (\<lambda>userId. databases_listDocuments postCollectionId
                              [Query_equal ''creator'' userId]) ids) w1 = (rs', w2)"
    by (cases "issue_all
            (map (\<lambda>userId. databases_listDocuments postCollectionId
                              [Query_equal ''creator'' userId]) ids) w1")
  from Cons.prems(1) 1 2 have rs: "rs = r # rs'" and w': "w' = w2"
    by simp_all
  from Cons.prems(2) rs obtain x where r: "r = Inr x" and rj: "rejected rs' = []"
    by (cases r) simp_all
  from Cons.prems(3) rs r obtain dl fetched' where
    x: "x = Some dl" and xs: "those (fulfilled rs') = Some fetched'"
    and f: "fetched = dl # fetched'"
    by (auto split: option.splits)
  from listDocuments_Some [OF 1 [unfolded r x]]
  have d: "documents dl = list_result (remote w) postCollectionId [Query_equal ''creator'' i]"
    and r1: "remote w1 = remote w"
    by auto
  from Cons.IH [OF 2 rj xs] r1 d f w' show ?case
    by simp
qed

lemma Promise_all_Some:
  assumes "Promise_all
            (map (\<lambda>userId. databases_listDocuments postCollectionId
                              [Query_equal ''creator'' userId]) ids) w = (Inr rs, w')"
    and "those rs = Some fetched"
  shows "map documents fetched =
           map (\<lambda>userId. list_result (remote w) postCollectionId
                            [Query_equal ''creator'' userId]) ids \<and>
         remote w' = remote w"
proof -
  from assms(1) obtain rs' where
    i: "issue_all
            (map (\<lambda>userId. databases_listDocuments postCollectionId
                              [Query_equal ''creator'' userId]) ids) w = (rs', w')"
    and rj: "rejected rs' = []" and rs: "rs = fulfilled rs'"
    by (auto simp: Promise_all_def split: prod.splits list.splits)
  from assms(2) have "those (fulfilled rs') = Some fetched"
    unfolding rs .
  from issue_all_Some [OF i rj this] show ?thesis .
qed

lemma getFollowingPosts_Some:
  assumes "getFollowingPosts w = (Inr (Some posts), w')"
  shows "\<exists>a cu u. current_account (remote w) = Some a \<and>
           first (list_result (remote w) userCollectionId
                    [Query_equal ''accountId'' (account_id a)]) = Some cu \<and>
           attrs cu = UserAttrs u \<and>
           posts = sort_key (\<lambda>d. - createdAt d)
              (concat (map (\<lambda>userId. list_result (remote w) postCollectionId
                                         [Query_equal ''creator'' userId])
                         (feed_userIds cu u))) \<and>
           remote w' = remote w"
proof -
  from assms obtain cu w1 u rs fetched where
    g: "getCurrentUser w = (Inr (Some cu), w1)" and u: "attrs cu = UserAttrs u"
    and p: "Promise_all
            (map (\<lambda>userId. databases_listDocuments postCollectionId
                              [Query_equal ''creator'' userId]) (feed_userIds cu u)) w1 =
              (Inr rs, w')"
    and t: "those rs = Some fetched"
    and s: "posts = sort_key (\<lambda>d. - createdAt d) (concat (map documents fetched))"
    unfolding getFollowingPosts_def Let_def feed_userIds_def
    by (auto dest!: catch_log_Inr await_Inr
        simp: resolve_def throw_def split: option.splits attrs.splits)
  from getCurrentUser_Some [OF g] Promise_all_Some [OF p t] u s show ?thesis
    by auto
qed






lemma catch_log_body:
  "try_catch m (\<lambda>error. await (console_log error) (\<lambda>_. resolve None)) w = (Inr (Some v), w') \<Longrightarrow>
     m w = (Inr (Some v), w')"
  by (auto dest!: catch_log_Inr)

lemma paginated_read_Some:
  assumes "paginated_read f page pageSizeArg w = (Inr (Some xs), w1)"
  shows "\<exists>allPosts. fetched_candidates f w = (Inr (Some allPosts), w1) \<and>
           xs = slice allPosts ((page - 1) * page_size (default_pageSize f) pageSizeArg)
                  ((page - 1) * page_size (default_pageSize f) pageSizeArg +
                   page_size (default_pageSize f) pageSizeArg)"
proof (cases f)
  case HomeFeed
  with assms show ?thesis
    unfolding paginated_read_def fetched_candidates_def getHomeFeedPosts_def Let_def
    by (auto dest!: catch_log_body await_Inr
        simp: resolve_def default_pageSize_def page_size_def)
next
  case ExploreFeed
  with assms show ?thesis
    unfolding paginated_read_def fetched_candidates_def getExplorePosts_def Let_def
    by (auto dest!: catch_log_body await_Inr
        simp: resolve_def default_pageSize_def page_size_def)
next
  case (ProfileFeed userId)
  with assms show ?thesis
    unfolding paginated_read_def fetched_candidates_def getUserProfilePosts_def Let_def
    by (auto dest!: catch_log_body await_Inr
        simp: resolve_def await_def default_pageSize_def page_size_def)
qed

lemma getAllPosts_Some:
  assumes "getAllPosts w = (Inr (Some allPosts), w')"
  shows "allPosts = list_result (remote w) postCollectionId [Query_orderDesc ''$updatedAt''] \<and>
         remote w' = remote w"
  using assms unfolding getAllPosts_def
  by (auto dest!: catch_log_body await_Inr listDocuments_Some
      simp: resolve_def throw_def split: option.splits)

lemma getUserPosts_Some:
  assumes "getUserPosts userId w = (Inr (Some userPosts), w')"
  shows "\<exists>userId'. userId = Some userId' \<and>
           documents userPosts = list_result (remote w) postCollectionId
             [Query_equal ''creator'' userId', Query_orderDesc ''$createdAt''] \<and>
           remote w' = remote w"
  using assms unfolding getUserPosts_def
  by (auto dest!: catch_log_body await_Inr listDocuments_Some
      simp: resolve_def throw_def split: option.splits if_splits)

lemma fetched_candidates_Some:
  assumes "fetched_candidates f w = (Inr (Some a), w1)"
    and "fetched_candidates f v = (Inr (Some b), v1)"
    and "remote v = remote w"
  shows "b = a \<and> remote w1 = remote w \<and> remote v1 = remote w"
proof (cases f)
  case HomeFeed
  with assms show ?thesis
    unfolding fetched_candidates_def
    by (auto dest!: getFollowingPosts_Some)
next
  case ExploreFeed
  with assms show ?thesis
    unfolding fetched_candidates_def
    by (auto dest!: getAllPosts_Some)
next
  case (ProfileFeed userId)
  with assms show ?thesis
    unfolding fetched_candidates_def
    by (auto dest!: await_Inr getUserPosts_Some simp: resolve_def)
qed

text \<open>
  On any backend, also one that fails some calls: two reads of a page in a row that
  both return content return the same content, the slice of what the feed fetched, and
  leave the backend as it was.
\<close>

lemma paginated_reads_agree:
  assumes "paginated_read f page pageSizeArg w = (Inr (Some xs), w1)"
    and "paginated_read f page pageSizeArg w1 = (Inr (Some ys), w2)"
  shows "ys = xs \<and> remote w1 = remote w \<and> remote w2 = remote w \<and>
         (\<exists>allPosts. fetched_candidates f w = (Inr (Some allPosts), w1) \<and>
            xs = slice allPosts ((page - 1) * page_size (default_pageSize f) pageSizeArg)
                   ((page - 1) * page_size (default_pageSize f) pageSizeArg +
                    page_size (default_pageSize f) pageSizeArg) \<and>
            (1 \<le> page \<and> 0 \<le> page_size (default_pageSize f) pageSizeArg \<longrightarrow>
               xs = take (nat (page_size (default_pageSize f) pageSizeArg))
                      (drop (nat ((page - 1) * page_size (default_pageSize f) pageSizeArg))
                         allPosts)))"
proof -
  let ?n = "page_size (default_pageSize f) pageSizeArg"
  from paginated_read_Some [OF assms(1)] obtain a where
    a: "fetched_candidates f w = (Inr (Some a), w1)"
    and xs: "xs = slice a ((page - 1) * ?n) ((page - 1) * ?n + ?n)"
    by blast
  from paginated_read_Some [OF assms(2)] obtain b where
    b: "fetched_candidates f w1 = (Inr (Some b), w2)"
    and ys: "ys = slice b ((page - 1) * ?n) ((page - 1) * ?n + ?n)"
    by blast
  from fetched_candidates_Some [OF a a] have r1: "remote w1 = remote w"
    by simp
  from fetched_candidates_Some [OF a b r1] have ba: "b = a" and r2: "remote w2 = remote w"
    by simp_all
  have "1 \<le> page \<and> 0 \<le> ?n \<longrightarrow>
          xs = take (nat ?n) (drop (nat ((page - 1) * ?n)) a)"
    using slice_window [of page ?n a] xs by simp
  with a xs ys ba r1 r2 show ?thesis
    by blast
qed

text \<open>On a backend that answers, each fetching read returns the candidate set of its feed.\<close>

lemma healthy_sdk_Inl:
  assumes "healthy w" and "op (remote w) = (Inl e, b)"
  shows "sdk c op w =
           (Inl e, w\<lparr>faults := tl (faults w), remote := b,
                      trace := trace w @ [(c, Rejected e)]\<rparr>)"
  using assms by (cases "faults w") (auto simp: sdk_def healthy_def Let_def)

lemma healthy_console [simp]: "healthy (w\<lparr>console := l\<rparr>) = healthy w"
  by (simp add: healthy_def)


lemma healthy_list_result:
  assumes "healthy w"
    and "apply_queries (remote w) qs (collections (remote w) coll) = Inr ds"
  shows "\<exists>w'. databases_listDocuments coll qs w =
           (Inr (Some \<lparr>total = length (list_result (remote w) coll qs),
                        documents = list_result (remote w) coll qs\<rparr>), w') \<and>
         healthy w' \<and> remote w' = remote w"
  using healthy_listDocuments [OF assms] healthy_tl [OF assms(1)] assms(2)
  by (simp add: list_result_def)

lemma healthy_getAllPosts:
  assumes "healthy w"
  shows "\<exists>w'. getAllPosts w =
           (Inr (Some (list_result (remote w) postCollectionId
                         [Query_orderDesc ''$updatedAt''])), w') \<and>
         healthy w' \<and> remote w' = remote w"
proof -
  have "\<exists>ds. apply_queries (remote w) [Query_orderDesc ''$updatedAt'']
          (collections (remote w) postCollectionId) = Inr ds"
    by (simp add: time_attr_def)
  then obtain ds where "apply_queries (remote w) [Query_orderDesc ''$updatedAt'']
          (collections (remote w) postCollectionId) = Inr ds" ..
  from healthy_list_result [OF assms this] show ?thesis
    by (auto simp: getAllPosts_def js_defs)
qed

lemma healthy_getUserPosts:
  assumes "healthy w" and "userId \<noteq> []"
  shows "\<exists>w' n. getUserPosts (Some userId) w =
           (Inr (Some \<lparr>total = n,
                        documents = list_result (remote w) postCollectionId
                          [Query_equal ''creator'' userId, Query_orderDesc ''$createdAt'']\<rparr>),
            w') \<and>
         healthy w' \<and> remote w' = remote w"
proof -
  have "\<exists>ds. apply_queries (remote w)
          [Query_equal ''creator'' userId, Query_orderDesc ''$createdAt'']
          (collections (remote w) postCollectionId) = Inr ds"
    by (simp add: time_attr_def)
  then obtain ds where "apply_queries (remote w)
          [Query_equal ''creator'' userId, Query_orderDesc ''$createdAt'']
          (collections (remote w) postCollectionId) = Inr ds" ..
  from healthy_list_result [OF assms(1) this] assms(2) show ?thesis
    by (auto simp: getUserPosts_def js_defs falsy_string_def)
qed

lemma healthy_getCurrentUser_total:
  assumes "healthy w"
  shows "\<exists>w'. getCurrentUser w =
           (Inr (case current_account (remote w) of
                   None \<Rightarrow> None
                 | Some a \<Rightarrow> first (list_result (remote w) userCollectionId
                                      [Query_equal ''accountId'' (account_id a)])), w') \<and>
         healthy w' \<and> remote w' = remote w"
proof (cases "current_account (remote w)")
  case None
  define w1 where "w1 = w\<lparr>faults := tl (faults w), remote := remote w,
     trace := trace w @ [(Account_get, Rejected (AppwriteException ''general_unauthorized_scope''))]\<rparr>"
  have g: "account_get w = (Inl (AppwriteException ''general_unauthorized_scope''), w1)"
    unfolding account_get_def w1_def
    by (rule healthy_sdk_Inl [OF assms]) (simp add: None)
  have h1: "healthy w1"
    by (rule healthy_tl [OF assms]) (simp add: w1_def)
  have "getCurrentUser w =
          (Inr None, w1\<lparr>console := console w1 @ [AppwriteException ''general_unauthorized_scope'']\<rparr>)"
    using g by (simp add: getCurrentUser_def js_defs)
  with h1 None show ?thesis
    by (simp add: w1_def)
next
  case (Some a)
  from healthy_getCurrentUser [OF assms Some] Some show ?thesis
    by auto
qed

lemma healthy_getFollowingPosts_total:
  assumes "healthy w"
  shows "\<exists>w'. getFollowingPosts w = (Inr (candidate_set (remote w) HomeFeed), w') \<and>
         healthy w' \<and> remote w' = remote w"
proof -
  from healthy_getCurrentUser_total [OF assms] obtain w1 where
    g: "getCurrentUser w =
           (Inr (case current_account (remote w) of
                   None \<Rightarrow> None
                 | Some a \<Rightarrow> first (list_result (remote w) userCollectionId
                                      [Query_equal ''accountId'' (account_id a)])), w1)"
    and h1: "healthy w1" and r1: "remote w1 = remote w"
    by blast
  define cu where "cu = (case current_account (remote w) of
                   None \<Rightarrow> None
                 | Some a \<Rightarrow> first (list_result (remote w) userCollectionId
                                      [Query_equal ''accountId'' (account_id a)]))"
  have g': "getCurrentUser w = (Inr cu, w1)"
    using g unfolding cu_def .
  show ?thesis
  proof (cases cu)
    case None
    then have c: "candidate_set (remote w) HomeFeed = None"
      unfolding cu_def by (auto simp: candidate_set_def split: option.splits)
    have "getFollowingPosts w = (Inr None, w1\<lparr>console := console w1 @ [ErrorConstructor]\<rparr>)"
      using g' None by (simp add: getFollowingPosts_def js_defs)
    with c h1 r1 show ?thesis
      by simp
  next
    case (Some currentUser)
    show ?thesis
    proof (cases "\<exists>u. attrs currentUser = UserAttrs u")
      case False
      with Some have c: "candidate_set (remote w) HomeFeed = None"
        unfolding cu_def by (auto simp: candidate_set_def split: option.splits attrs.splits)
      have "getFollowingPosts w = (Inr None, w1\<lparr>console := console w1 @ [TypeError]\<rparr>)"
        using g' Some False
        by (cases "attrs currentUser") (simp_all add: getFollowingPosts_def js_defs)
      with c h1 r1 show ?thesis
        by simp
    next
      case True
      then obtain u where u: "attrs currentUser = UserAttrs u" ..
      from Some obtain a where a: "current_account (remote w) = Some a"
        and f: "first (list_result (remote w) userCollectionId
                  [Query_equal ''accountId'' (account_id a)]) = Some currentUser"
        unfolding cu_def by (auto split: option.splits)
      from a f u have c: "candidate_set (remote w) HomeFeed =
           Some (sort_key (\<lambda>d. - createdAt d)
              (concat (map (\<lambda>userId. list_result (remote w) postCollectionId
                                         [Query_equal ''creator'' userId])
                         (feed_userIds currentUser u))))"
        by (simp add: candidate_set_def)
      from healthy_getFollowingPosts [OF assms a f u] c show ?thesis
        by auto
    qed
  qed
qed

lemma healthy_fetched_candidates:
  assumes "healthy w"
  shows "\<exists>w'. fetched_candidates f w = (Inr (candidate_set (remote w) f), w') \<and>
         healthy w' \<and> remote w' = remote w"
proof (cases f)
  case HomeFeed
  with healthy_getFollowingPosts_total [OF assms] show ?thesis
    by (simp add: fetched_candidates_def)
next
  case ExploreFeed
  with healthy_getAllPosts [OF assms] show ?thesis
    by (simp add: fetched_candidates_def candidate_set_def)
next
  case (ProfileFeed userId)
  show ?thesis
  proof (cases "userId = []")
    case True
    with ProfileFeed assms show ?thesis
      by (simp add: fetched_candidates_def candidate_set_def getUserPosts_def js_defs
          falsy_string_def)
  next
    case False
    from healthy_getUserPosts [OF assms False] ProfileFeed False show ?thesis
      by (auto simp: fetched_candidates_def candidate_set_def js_defs)
  qed
qed

lemma paginated_read_slice:
  assumes "fetched_candidates f w = (Inr c, w1)"
  shows "paginated_read f page pageSizeArg w =
           (Inr (map_option
                   (\<lambda>allPosts. slice allPosts
                      ((page - 1) * page_size (default_pageSize f) pageSizeArg)
                      ((page - 1) * page_size (default_pageSize f) pageSizeArg +
                       page_size (default_pageSize f) pageSizeArg)) c), w1)"
proof (cases f)
  case HomeFeed
  with assms show ?thesis
    by (simp add: paginated_read_def fetched_candidates_def getHomeFeedPosts_def js_defs
        Let_def page_size_def default_pageSize_def)
next
  case ExploreFeed
  with assms show ?thesis
    by (simp add: paginated_read_def fetched_candidates_def getExplorePosts_def js_defs
        Let_def page_size_def default_pageSize_def)
next
  case (ProfileFeed userId)
  with assms show ?thesis
    by (auto simp: paginated_read_def fetched_candidates_def getUserProfilePosts_def js_defs
        Let_def page_size_def default_pageSize_def split: prod.splits sum.splits)
qed

text \<open>
  Claim C7. On a backend that answers, take one of the three paginated feeds, a page
  number and a page size, and read the page twice in a row, the second time in the world
  the first read left. Both reads return the same content and the backend stays as it
  was. The content is the slice from \<open>(page - 1) * pageSize\<close> to
  \<open>(page - 1) * pageSize + pageSize\<close> of the full candidate set of the feed, which is
  what the fetching read of the feed returned; a feed without a candidate set returns
  \<open>undefined\<close> both times. For a page number from 1 on and a page size that is not
  negative the slice is the window of \<open>pageSize\<close> elements after the first
  \<open>(page - 1) * pageSize\<close>.
\<close>

theorem paginated_reads_idempotent:
  assumes "healthy w"
  shows "\<exists>content w1 w2.
           paginated_read f page pageSizeArg w = (Inr content, w1) \<and>
           paginated_read f page pageSizeArg w1 = (Inr content, w2) \<and>
           remote w1 = remote w \<and> remote w2 = remote w \<and>
           fetched_candidates f w = (Inr (candidate_set (remote w) f), w1) \<and>
           content =
             map_option
               (\<lambda>allPosts. slice allPosts
                  ((page - 1) * page_size (default_pageSize f) pageSizeArg)
                  ((page - 1) * page_size (default_pageSize f) pageSizeArg +
                   page_size (default_pageSize f) pageSizeArg))
               (candidate_set (remote w) f) \<and>
           (1 \<le> page \<and> 0 \<le> page_size (default_pageSize f) pageSizeArg \<longrightarrow>
              content =
                map_option
                  (\<lambda>allPosts. take (nat (page_size (default_pageSize f) pageSizeArg))
                     (drop (nat ((page - 1) * page_size (default_pageSize f) pageSizeArg))
                        allPosts))
                  (candidate_set (remote w) f))"
proof -
  let ?n = "page_size (default_pageSize f) pageSizeArg"
  let ?c = "candidate_set (remote w) f"
  let ?content = "map_option (\<lambda>allPosts. slice allPosts ((page - 1) * ?n)
                                ((page - 1) * ?n + ?n)) ?c"
  from healthy_fetched_candidates [OF assms, of f] obtain w1 where
    a: "fetched_candidates f w = (Inr ?c, w1)"
    and h1: "healthy w1" and r1: "remote w1 = remote w"
    by blast
  from healthy_fetched_candidates [OF h1, of f] r1 obtain w2 where
    b: "fetched_candidates f w1 = (Inr ?c, w2)"
    and r2: "remote w2 = remote w"
    by auto
  have 1: "paginated_read f page pageSizeArg w = (Inr ?content, w1)"
    by (rule paginated_read_slice [OF a])
  have 2: "paginated_read f page pageSizeArg w1 = (Inr ?content, w2)"
    by (rule paginated_read_slice [OF b])
  have 3: "1 \<le> page \<and> 0 \<le> ?n \<longrightarrow>
             ?content = map_option (\<lambda>allPosts. take (nat ?n)
                           (drop (nat ((page - 1) * ?n)) allPosts)) ?c"
    using slice_window [of page ?n] by (cases ?c) auto
  from 1 2 3 a r1 r2 show ?thesis
    by blast
qed

lemma example_candidates:
  "candidate_set example_backend HomeFeed =
     Some [example_post ''p4'' 40 ''u1'' [], example_post ''p2'' 30 ''u2'' [],
           example_post ''p3'' 20 ''u2'' [], example_post ''p1'' 10 ''u1'' [''u1'']]"
  "candidate_set example_backend ExploreFeed =
     Some [example_post ''p4'' 40 ''u1'' [], example_post ''p2'' 30 ''u2'' [],
           example_post ''p3'' 20 ''u2'' [], example_post ''p1'' 10 ''u1'' [''u1'']]"
  "candidate_set example_backend (ProfileFeed ''u2'') =
     Some [example_post ''p2'' 30 ''u2'' [], example_post ''p3'' 20 ''u2'' []]"
  by (simp_all add: candidate_set_def list_result_def feed_userIds_def first_def
      current_account_def string_attr_def time_attr_def ex_defs)

theorem paginated_reads_idempotent_witness:
  "healthy (example_world []) \<and>
   (1::int) \<le> 2 \<and> 0 \<le> page_size (default_pageSize ExploreFeed) (Some 2) \<and>
   (\<exists>w1 w2.
      paginated_read HomeFeed 1 None (example_world []) =
        (Inr (Some [example_post ''p4'' 40 ''u1'' [], example_post ''p2'' 30 ''u2'' [],
                    example_post ''p3'' 20 ''u2'' []]), w1) \<and>
      paginated_read HomeFeed 1 None w1 =
        (Inr (Some [example_post ''p4'' 40 ''u1'' [], example_post ''p2'' 30 ''u2'' [],
                    example_post ''p3'' 20 ''u2'' []]), w2) \<and>
      remote w2 = example_backend) \<and>
   (\<exists>w1 w2.
      paginated_read ExploreFeed 2 (Some 2) (example_world []) =
        (Inr (Some [example_post ''p3'' 20 ''u2'' [],
                    example_post ''p1'' 10 ''u1'' [''u1'']]), w1) \<and>
      paginated_read ExploreFeed 2 (Some 2) w1 =
        (Inr (Some [example_post ''p3'' 20 ''u2'' [],
                    example_post ''p1'' 10 ''u1'' [''u1'']]), w2) \<and>
      remote w2 = example_backend) \<and>
   (\<exists>w1 w2.
      paginated_read (ProfileFeed ''u2'') 1 None (example_world []) =
        (Inr (Some [example_post ''p2'' 30 ''u2'' [], example_post ''p3'' 20 ''u2'' []]), w1) \<and>
      paginated_read (ProfileFeed ''u2'') 1 None w1 =
        (Inr (Some [example_post ''p2'' 30 ''u2'' [], example_post ''p3'' 20 ''u2'' []]), w2) \<and>
      remote w2 = example_backend)"
proof -
  have h: "healthy (example_world [])"
    by (simp add: healthy_def example_world_def)
  have r: "remote (example_world []) = example_backend"
    by (simp add: example_world_def)
  have n: "(1::int) \<le> 2 \<and> 0 \<le> page_size (default_pageSize ExploreFeed) (Some 2)"
    by (simp add: page_size_def)
  from paginated_reads_idempotent [OF h, of HomeFeed 1 None]
  have 1: "\<exists>w1 w2.
      paginated_read HomeFeed 1 None (example_world []) =
        (Inr (Some [example_post ''p4'' 40 ''u1'' [], example_post ''p2'' 30 ''u2'' [],
                    example_post ''p3'' 20 ''u2'' []]), w1) \<and>
      paginated_read HomeFeed 1 None w1 =
        (Inr (Some [example_post ''p4'' 40 ''u1'' [], example_post ''p2'' 30 ''u2'' [],
                    example_post ''p3'' 20 ''u2'' []]), w2) \<and>
      remote w2 = example_backend"
    unfolding r example_candidates
    by (auto simp: page_size_def default_pageSize_def)
  from paginated_reads_idempotent [OF h, of ExploreFeed 2 "Some 2"]
  have 2: "\<exists>w1 w2.
      paginated_read ExploreFeed 2 (Some 2) (example_world []) =
        (Inr (Some [example_post ''p3'' 20 ''u2'' [],
                    example_post ''p1'' 10 ''u1'' [''u1'']]), w1) \<and>
      paginated_read ExploreFeed 2 (Some 2) w1 =
        (Inr (Some [example_post ''p3'' 20 ''u2'' [],
                    example_post ''p1'' 10 ''u1'' [''u1'']]), w2) \<and>
      remote w2 = example_backend"
    unfolding r example_candidates
    by (auto simp: page_size_def default_pageSize_def)
  from paginated_reads_idempotent [OF h, of "ProfileFeed ''u2''" 1 None]
  have 3: "\<exists>w1 w2.
      paginated_read (ProfileFeed ''u2'') 1 None (example_world []) =
        (Inr (Some [example_post ''p2'' 30 ''u2'' [], example_post ''p3'' 20 ''u2'' []]), w1) \<and>
      paginated_read (ProfileFeed ''u2'') 1 None w1 =
        (Inr (Some [example_post ''p2'' 30 ''u2'' [], example_post ''p3'' 20 ''u2'' []]), w2) \<and>
      remote w2 = example_backend"
    unfolding r example_candidates
    by (auto simp: page_size_def default_pageSize_def)
  from h n 1 2 3 show ?thesis
    by blast
qed

section \<open>Errors of remote calls\<close>

lemma rejections_append [simp]: "rejections (s @ t) = rejections s @ rejections t"
  by (induction s rule: rejections.induct) auto


lemma sdk_trace:
  assumes "sdk c op w = (r, w')"
  shows "console w' = console w \<and> trace w' = trace w @ [(c, status_of r)]"
  using sdk_cases [OF assms]
  by (auto simp: status_of_def)



lemma swallowsD:
  "swallows m \<Longrightarrow> m w = (r, w') \<Longrightarrow>
     \<exists>t l v. trace w' = trace w @ t \<and> console w' = console w @ l \<and>
        set (rejections t) \<subseteq> set l \<and> r = Inr v \<and> (rejections t \<noteq> [] \<longrightarrow> v = None)"
  unfolding swallows_def contained_def by blast

lemma await_cases:
  "await m k w = (r, w') \<Longrightarrow>
     (\<exists>e. m w = (Inl e, w') \<and> r = Inl e) \<or> (\<exists>x w1. m w = (Inr x, w1) \<and> k x w1 = (r, w'))"
  by (auto simp: await_def split: prod.splits sum.splits)

lemma catch_log_cases:
  "try_catch m (\<lambda>error. await (console_log error) (\<lambda>_. resolve v0)) w = (r, w') \<Longrightarrow>
     (\<exists>e w1. m w = (Inl e, w1) \<and> r = Inr v0 \<and> trace w' = trace w1 \<and>
         console w' = console w1 @ [e]) \<or>
     (\<exists>x. m w = (Inr x, w') \<and> r = Inr x)"
  by (auto simp: js_defs split: prod.splits sum.splits)

lemma ID_unique_effect:
  "ID_unique w = (r, w') \<Longrightarrow> trace w' = trace w \<and> console w' = console w \<and> (\<exists>i. r = Inr i)"
  by (auto simp: ID_unique_def)

lemma rejections_status [simp]:
  "rejections ((c, status_of r) # t) =
     (case r of Inl e \<Rightarrow> e # rejections t | Inr _ \<Rightarrow> rejections t)"
  by (auto simp: status_of_def split: sum.splits option.splits)

lemma swallows_uploadFile: "swallows (uploadFile f)"
  unfolding swallows_def contained_def uploadFile_def storage_createFile_def
  by (auto dest!: catch_log_cases await_cases ID_unique_effect sdk_trace
      simp: resolve_def throw_def)

lemma swallows_getFilePreview: "swallows (getFilePreview i)"
  unfolding swallows_def contained_def getFilePreview_def storage_getFilePreview_def
  by (auto dest!: catch_log_cases await_cases sdk_trace simp: resolve_def throw_def)

lemma swallows_deleteFile: "swallows (deleteFile i)"
  unfolding swallows_def contained_def deleteFile_def storage_deleteFile_def
  by (auto dest!: catch_log_cases await_cases sdk_trace simp: resolve_def throw_def)


lemmas sdk_calls = storage_createFile_def storage_getFilePreview_def storage_deleteFile_def
  databases_createDocument_def databases_getDocument_def databases_listDocuments_def
  databases_updateDocument_def databases_deleteDocument_def
  account_create_def account_createEmailSession_def account_deleteSession_def
  account_get_def account_updateName_def

lemma swallows_saveUserToDB: "swallows (saveUserToDB u)"
  unfolding swallows_def contained_def saveUserToDB_def databases_createDocument_def
  by (auto dest!: catch_log_cases await_cases ID_unique_effect sdk_trace
      simp: resolve_def throw_def)

lemma swallows_signInAccount: "swallows (signInAccount m p)"
  unfolding swallows_def contained_def signInAccount_def account_createEmailSession_def
  by (auto dest!: catch_log_cases await_cases sdk_trace simp: resolve_def throw_def)

lemma swallows_signOutAccount: "swallows signOutAccount"
  unfolding swallows_def contained_def signOutAccount_def account_deleteSession_def
  by (auto dest!: catch_log_cases await_cases sdk_trace simp: resolve_def throw_def)

lemma swallows_likePost: "swallows (likePost i ls)"
  unfolding swallows_def contained_def likePost_def databases_updateDocument_def
  by (auto dest!: catch_log_cases await_cases sdk_trace simp: resolve_def throw_def
      split: option.splits)

lemma swallows_savePost: "swallows (savePost i u)"
  unfolding swallows_def contained_def savePost_def databases_createDocument_def
  by (auto dest!: catch_log_cases await_cases ID_unique_effect sdk_trace
      simp: resolve_def throw_def split: option.splits)

lemma swallows_deleteSavedPost: "swallows (deleteSavedPost i)"
  unfolding swallows_def contained_def deleteSavedPost_def databases_deleteDocument_def
  by (auto dest!: catch_log_cases await_cases sdk_trace simp: resolve_def throw_def
      split: option.splits)

lemma swallows_followUser: "swallows (followUser i u)"
  unfolding swallows_def contained_def followUser_def databases_createDocument_def
  by (auto dest!: catch_log_cases await_cases ID_unique_effect sdk_trace
      simp: resolve_def throw_def split: option.splits)

lemma swallows_unfollowUser: "swallows (unfollowUser i)"
  unfolding swallows_def contained_def unfollowUser_def databases_deleteDocument_def
  by (auto dest!: catch_log_cases await_cases sdk_trace simp: resolve_def throw_def
      split: option.splits)

lemma swallows_searchPosts: "swallows (searchPosts s)"
  unfolding swallows_def contained_def searchPosts_def databases_listDocuments_def
  by (auto dest!: catch_log_cases await_cases sdk_trace simp: resolve_def throw_def
      split: option.splits)

lemma swallows_getAllPosts: "swallows getAllPosts"
  unfolding swallows_def contained_def getAllPosts_def databases_listDocuments_def
  by (auto dest!: catch_log_cases await_cases sdk_trace simp: resolve_def throw_def
      split: option.splits)

lemma swallows_getUserPosts: "swallows (getUserPosts i)"
  unfolding swallows_def contained_def getUserPosts_def databases_listDocuments_def
  by (auto dest!: catch_log_cases await_cases sdk_trace simp: resolve_def throw_def
      split: option.splits if_splits)

lemma swallows_getUserById: "swallows (getUserById i)"
  unfolding swallows_def contained_def getUserById_def databases_getDocument_def
  by (auto dest!: catch_log_cases await_cases sdk_trace simp: resolve_def throw_def
      split: option.splits if_splits)

lemma swallows_getUsers: "swallows (getUsers n)"
  unfolding swallows_def contained_def getUsers_def databases_listDocuments_def Let_def
  by (auto dest!: catch_log_cases await_cases sdk_trace simp: resolve_def throw_def
      split: option.splits if_splits)

lemma swallows_getCurrentUser: "swallows getCurrentUser"
  unfolding swallows_def contained_def getCurrentUser_def databases_listDocuments_def
    account_get_def
  by (auto dest!: catch_log_cases await_cases sdk_trace simp: resolve_def throw_def
      split: option.splits if_splits)

lemma contained_getPostById: "getPostById i w = (r, w') \<Longrightarrow> contained w r w'"
  unfolding contained_def getPostById_def databases_getDocument_def
  by (auto dest!: catch_log_cases await_cases sdk_trace simp: resolve_def throw_def
      split: option.splits if_splits)

lemma contained_deletePost: "deletePost i j w = (r, w') \<Longrightarrow> contained w r w'"
  unfolding contained_def deletePost_def databases_deleteDocument_def
  by (auto dest!: catch_log_cases await_cases sdk_trace simp: resolve_def throw_def
      split: option.splits if_splits)


lemmas file_swallowsD =
  swallowsD [OF swallows_uploadFile] swallowsD [OF swallows_getFilePreview]
  swallowsD [OF swallows_deleteFile]

lemma swallows_createPost: "swallows (createPost p)"
  unfolding swallows_def contained_def createPost_def databases_createDocument_def Let_def
  by (auto dest!: catch_log_cases await_cases ID_unique_effect sdk_trace file_swallowsD
      simp: resolve_def throw_def split: option.splits; blast)

lemma swallows_getExplorePosts: "swallows (getExplorePosts page n)"
  unfolding swallows_def contained_def getExplorePosts_def Let_def
  by (auto dest!: catch_log_cases await_cases swallowsD [OF swallows_getAllPosts]
      simp: resolve_def throw_def; blast)

lemma swallows_getUserProfilePosts: "swallows (getUserProfilePosts u page n)"
  unfolding swallows_def contained_def getUserProfilePosts_def Let_def
  by (auto dest!: catch_log_cases await_cases swallowsD [OF swallows_getUserPosts]
      simp: resolve_def throw_def; blast)

lemma swallows_getAllUsers: "swallows (getAllUsers page n)"
  unfolding swallows_def contained_def getAllUsers_def Let_def
  by (auto dest!: catch_log_cases await_cases swallowsD [OF swallows_getUsers]
      simp: resolve_def throw_def; blast)


lemma upload_block:
  assumes "(if b then
              await (uploadFile f) (\<lambda>uploadedFile.
              case uploadedFile of
                None \<Rightarrow> throw ErrorConstructor
              | Some uploaded \<Rightarrow>
                  await (getFilePreview (file_id uploaded)) (\<lambda>fileUrl.
                  case fileUrl of
                    None \<Rightarrow>
                      await (deleteFile (file_id uploaded)) (\<lambda>_.
                      throw ErrorConstructor)
                  | Some fileUrl' \<Rightarrow> resolve (fileUrl', file_id uploaded)))
            else resolve keep) w = (r, w')"
  shows "\<exists>t l. trace w' = trace w @ t \<and> console w' = console w @ l \<and>
           set (rejections t) \<subseteq> set l \<and> (rejections t \<noteq> [] \<longrightarrow> (\<exists>e. r = Inl e))"
  using assms
  by (auto dest!: await_cases file_swallowsD
      simp: resolve_def throw_def split: option.splits if_splits; blast)

lemma swallows_updatePost: "swallows (updatePost p)"
  unfolding swallows_def contained_def updatePost_def databases_updateDocument_def Let_def
  by (auto dest!: catch_log_cases await_cases sdk_trace upload_block
        swallowsD [OF swallows_deleteFile]
      simp: resolve_def throw_def split: option.splits split del: if_split; blast)

lemma swallows_updateUser: "swallows (updateUser u)"
  unfolding swallows_def contained_def updateUser_def databases_updateDocument_def
    account_updateName_def Let_def
  by (auto dest!: catch_log_cases await_cases sdk_trace upload_block
        swallowsD [OF swallows_deleteFile]
      simp: resolve_def throw_def split: option.splits if_splits split del: if_split; blast)




lemma catch_return_cases:
  "try_catch m (\<lambda>error. await (console_log error) (\<lambda>_. resolve (ErrorValue error))) w = (r, w') \<Longrightarrow>
     (\<exists>e w1. m w = (Inl e, w1) \<and> r = Inr (ErrorValue e) \<and> trace w' = trace w1 \<and>
         console w' = console w1 @ [e]) \<or>
     (\<exists>x. m w = (Inr x, w') \<and> r = Inr x)"
  by (auto simp: js_defs split: prod.splits sum.splits)

lemma createUserAccount_contained:
  assumes "createUserAccount u w = (r, w')"
  shows "\<exists>t l. trace w' = trace w @ t \<and> console w' = console w @ l \<and>
           set (rejections t) \<subseteq> set l \<and>
           (rejections t \<noteq> [] \<longrightarrow>
              r = Inr (Value None) \<or> r = Inr (ErrorValue (hd (rejections t))))"
  using assms
  unfolding createUserAccount_def account_create_def Let_def
  by (auto dest!: catch_return_cases await_cases ID_unique_effect sdk_trace
        swallowsD [OF swallows_saveUserToDB]
      simp: resolve_def throw_def split: option.splits; blast)





lemma single_callD:
  "single_call m \<Longrightarrow> m w = (r, w') \<Longrightarrow>
     console w' = console w \<and>
     (\<exists>t. trace w' = trace w @ t \<and> rejections t = (case r of Inl e \<Rightarrow> [e] | Inr _ \<Rightarrow> []))"
  unfolding single_call_def by blast

lemma single_call_sdk: "single_call (sdk c op)"
proof -
  have "console w' = console w \<and>
     (\<exists>t. trace w' = trace w @ t \<and> rejections t = (case r of Inl e \<Rightarrow> [e] | Inr _ \<Rightarrow> []))"
    if "sdk c op w = (r, w')" for w r w'
  proof -
    from sdk_trace [OF that] have "console w' = console w"
      and "trace w' = trace w @ [(c, status_of r)]"
      by simp_all
    moreover have "rejections [(c, status_of r)] = (case r of Inl e \<Rightarrow> [e] | Inr _ \<Rightarrow> [])"
      by (cases r) simp_all
    ultimately show ?thesis by blast
  qed
  then show ?thesis
    unfolding single_call_def by blast
qed

lemma issue_all_rejections:
  assumes "issue_all ms w = (rs, w')" and "\<forall>m \<in> set ms. single_call m"
  shows "\<exists>t. trace w' = trace w @ t \<and> console w' = console w \<and>
           rejections t = rejected rs"
  using assms
proof (induction ms arbitrary: w rs w')
  case Nil
  then show ?case by auto
next
  case (Cons m ms)
  from Cons.prems(2) have sm: "single_call m" and sms: "\<forall>m \<in> set ms. single_call m"
    by simp_all
  obtain r1 w1 where 1: "m w = (r1, w1)"
    by (cases "m w")
  obtain rs2 w2 where 2: "issue_all ms w1 = (rs2, w2)"
    by (cases "issue_all ms w1")
  from single_callD [OF sm 1] obtain t1 where
    t1: "trace w1 = trace w @ t1" and l1: "console w1 = console w"
    and r1: "rejections t1 = (case r1 of Inl e \<Rightarrow> [e] | Inr _ \<Rightarrow> [])"
    by blast
  from Cons.IH [OF 2 sms] obtain t where
    t: "trace w2 = trace w1 @ t" and l: "console w2 = console w1"
    and r2: "rejections t = rejected rs2"
    by blast
  from Cons.prems(1) 1 2 have rs: "rs = r1 # rs2" and w': "w' = w2"
    by simp_all
  have tr: "trace w' = trace w @ (t1 @ t)" and co: "console w' = console w"
    using t1 t l1 l w' by simp_all
  have "rejections (t1 @ t) = rejected rs"
    using r1 r2 rs by (cases r1) simp_all
  with tr co show ?case by blast
qed

lemma Promise_all_one:
  assumes "Promise_all ms w = (r, w')" and "\<forall>m \<in> set ms. single_call m"
  shows "\<exists>t. trace w' = trace w @ t \<and> console w' = console w \<and>
           (case r of Inl e \<Rightarrow> e \<in> set (rejections t) | Inr _ \<Rightarrow> rejections t = [])"
proof -
  obtain rs v where i: "issue_all ms w = (rs, v)"
    by (cases "issue_all ms w")
  with assms(1) have v: "v = w'"
    and r: "r = (case rejected rs of
                   [] \<Rightarrow> Inr (fulfilled rs)
                 | e # es \<Rightarrow> Inl ((e # es) ! (race w mod length (e # es))))"
    by (simp_all add: Promise_all_def)
  from issue_all_rejections [OF i assms(2)] v obtain t where
    t: "trace w' = trace w @ t" and l: "console w' = console w"
    and j: "rejections t = rejected rs"
    by blast
  have "case r of Inl e \<Rightarrow> e \<in> set (rejections t) | Inr _ \<Rightarrow> rejections t = []"
  proof (cases "rejected rs")
    case Nil
    with r j show ?thesis by simp
  next
    case (Cons e es)
    have "(e # es) ! (race w mod length (e # es)) \<in> set (e # es)"
      by (rule nth_mem) simp
    with r j Cons show ?thesis by simp
  qed
  with t l show ?thesis by blast
qed

lemma feed_body:
  assumes "await (Promise_all ms) (\<lambda>fetchPosts.
             case those fetchPosts of
               None \<Rightarrow> throw TypeError
             | Some fetched \<Rightarrow> resolve (Some (g fetched))) w = (r, w')"
    and "\<forall>m \<in> set ms. single_call m"
  shows "\<exists>t. trace w' = trace w @ t \<and> console w' = console w \<and>
           (rejections t \<noteq> [] \<longrightarrow> (\<exists>e. e \<in> set (rejections t) \<and> r = Inl e))"
proof -
  from await_cases [OF assms(1)] show ?thesis
  proof (elim disjE exE conjE)
    fix e
    assume "Promise_all ms w = (Inl e, w')" and "r = Inl e"
    with Promise_all_one [OF _ assms(2), of w "Inl e" w'] show ?thesis
      by auto
  next
    fix x w1
    assume p: "Promise_all ms w = (Inr x, w1)"
      and k: "(case those x of None \<Rightarrow> throw TypeError
               | Some fetched \<Rightarrow> resolve (Some (g fetched))) w1 = (r, w')"
    from k have "w' = w1"
      by (auto simp: throw_def resolve_def split: option.splits)
    with Promise_all_one [OF p assms(2)] show ?thesis
      by auto
  qed
qed


lemma single_call_list:
  "\<forall>m \<in> set (map (\<lambda>userId. databases_listDocuments coll (qs userId)) ids). single_call m"
  by (auto simp: databases_listDocuments_def single_call_sdk)

lemma feed_tail:
  assumes "(case currentUser of
              None \<Rightarrow> throw ErrorConstructor
            | Some currentUser' \<Rightarrow>
                (case attrs currentUser' of
                   UserAttrs u \<Rightarrow>
                     (let userIds = map followedUser (following u) @ [doc_id currentUser'] in
                      await (Promise_all
                               (map (\<lambda>userId. databases_listDocuments postCollectionId
                                                 [Query_equal ''creator'' userId]) userIds))
                        (\<lambda>fetchPosts.
                      case those fetchPosts of
                        None \<Rightarrow> throw TypeError
                      | Some fetched \<Rightarrow>
                          (let postList = sort_key (\<lambda>d. - createdAt d)
                                            (concat (map documents fetched))
                           in resolve (Some postList))))
                 | _ \<Rightarrow> throw TypeError)) w = (r, w')"
  shows "\<exists>t. trace w' = trace w @ t \<and> console w' = console w \<and>
           (rejections t \<noteq> [] \<longrightarrow> (\<exists>e. e \<in> set (rejections t) \<and> r = Inl e)) \<and>
           (currentUser = None \<longrightarrow> (\<exists>e. r = Inl e))"
proof (cases currentUser)
  case None
  with assms show ?thesis by (auto simp: throw_def)
next
  case (Some cu)
  show ?thesis
  proof (cases "attrs cu")
    case (UserAttrs u)
    define ms where "ms = map (\<lambda>userId. databases_listDocuments postCollectionId
                                 [Query_equal ''creator'' userId])
                            (map followedUser (following u) @ [doc_id cu])"
    have s: "\<forall>m \<in> set ms. single_call m"
      unfolding ms_def by (rule single_call_list)
    have "await (Promise_all ms) (\<lambda>fetchPosts.
             case those fetchPosts of
               None \<Rightarrow> throw TypeError
             | Some fetched \<Rightarrow>
                 resolve (Some (sort_key (\<lambda>d. - createdAt d)
                   (concat (map documents fetched))))) w = (r, w')"
      using assms Some UserAttrs unfolding ms_def Let_def by simp
    from feed_body [OF this s] Some show ?thesis
      by simp
  next
    case (PostAttrs x)
    with assms Some show ?thesis by (auto simp: throw_def)
  next
    case (SaveAttrs x)
    with assms Some show ?thesis by (auto simp: throw_def)
  next
    case (FollowAttrs x)
    with assms Some show ?thesis by (auto simp: throw_def)
  qed
qed

lemma getFollowingPosts_one:
  assumes "getFollowingPosts w = (r, w')"
  shows "contained_one w r w' \<and> (\<exists>v. r = Inr v)"
proof -
  define K :: "document option \<Rightarrow> document list option js"
    where "K = (\<lambda>currentUser. case currentUser of
              None \<Rightarrow> throw ErrorConstructor
            | Some currentUser' \<Rightarrow>
                (case attrs currentUser' of
                   UserAttrs u \<Rightarrow>
                     (let userIds = map followedUser (following u) @ [doc_id currentUser'] in
                      await (Promise_all
                               (map (\<lambda>userId. databases_listDocuments postCollectionId
                                                 [Query_equal ''creator'' userId]) userIds))
                        (\<lambda>fetchPosts.
                      case those fetchPosts of
                        None \<Rightarrow> throw TypeError
                      | Some fetched \<Rightarrow>
                          (let postList = sort_key (\<lambda>d. - createdAt d)
                                            (concat (map documents fetched))
                           in resolve (Some postList))))
                 | _ \<Rightarrow> throw TypeError))"
  have run: "try_catch (await getCurrentUser K)
               (\<lambda>error. await (console_log error) (\<lambda>_. resolve None)) w = (r, w')"
    using assms unfolding getFollowingPosts_def K_def .
  have body: "\<exists>t l. trace v' = trace w @ t \<and> console v' = console w @ l \<and>
                (rejections t \<noteq> [] \<longrightarrow>
                   (\<exists>e. q = Inl e) \<and>
                   (set (rejections t) \<inter> set l \<noteq> {} \<or>
                    (\<exists>e. e \<in> set (rejections t) \<and> q = Inl e)))"
    if b: "await getCurrentUser K w = (q, v')" for q v'
  proof -
    from await_cases [OF b] swallowsD [OF swallows_getCurrentUser]
    obtain x w1 where g: "getCurrentUser w = (Inr x, w1)" and k: "K x w1 = (q, v')"
      by blast
    from swallowsD [OF swallows_getCurrentUser g] obtain t1 l1 where
      t1: "trace w1 = trace w @ t1" and l1: "console w1 = console w @ l1"
      and s1: "set (rejections t1) \<subseteq> set l1" and n1: "rejections t1 \<noteq> [] \<longrightarrow> x = None"
      by auto
    from feed_tail [OF k [unfolded K_def]] obtain t2 where
      t2: "trace v' = trace w1 @ t2" and l2: "console v' = console w1"
      and r2: "rejections t2 \<noteq> [] \<longrightarrow> (\<exists>e. e \<in> set (rejections t2) \<and> q = Inl e)"
      and x: "x = None \<longrightarrow> (\<exists>e. q = Inl e)"
      by blast
    have "trace v' = trace w @ (t1 @ t2)" and "console v' = console w @ l1"
      using t1 t2 l1 l2 by simp_all
    moreover have "rejections (t1 @ t2) \<noteq> [] \<longrightarrow>
                   (\<exists>e. q = Inl e) \<and>
                   (set (rejections (t1 @ t2)) \<inter> set l1 \<noteq> {} \<or>
                    (\<exists>e. e \<in> set (rejections (t1 @ t2)) \<and> q = Inl e))"
    proof (cases "rejections t1")
      case Nil
      with r2 show ?thesis by auto
    next
      case (Cons e es)
      with s1 have "e \<in> set (rejections (t1 @ t2)) \<inter> set l1"
        by auto
      then have "set (rejections (t1 @ t2)) \<inter> set l1 \<noteq> {}"
        by blast
      moreover from Cons n1 x have "\<exists>e. q = Inl e"
        by simp
      ultimately show ?thesis by blast
    qed
    ultimately show ?thesis by blast
  qed
  from catch_log_cases [OF run] show ?thesis
  proof (elim disjE exE conjE)
    fix e w1
    assume m: "await getCurrentUser K w = (Inl e, w1)" and r: "r = Inr None"
      and t: "trace w' = trace w1" and l: "console w' = console w1 @ [e]"
    from body [OF m] obtain t1 l1 where
      t1: "trace w1 = trace w @ t1" and l1: "console w1 = console w @ l1"
      and j: "rejections t1 \<noteq> [] \<longrightarrow>
                set (rejections t1) \<inter> set l1 \<noteq> {} \<or> e \<in> set (rejections t1)"
      by auto
    from j have "rejections t1 \<noteq> [] \<longrightarrow> set (rejections t1) \<inter> set (l1 @ [e]) \<noteq> {}"
      by auto
    with r t l t1 l1 have "trace w' = trace w @ t1" "console w' = console w @ (l1 @ [e])"
      "rejections t1 \<noteq> [] \<longrightarrow> set (rejections t1) \<inter> set (l1 @ [e]) \<noteq> {} \<and> r = Inr None"
      by simp_all
    then show ?thesis
      unfolding contained_one_def using r by blast
  next
    fix x
    assume m: "await getCurrentUser K w = (Inr x, w')" and r: "r = Inr x"
    from body [OF m] obtain t1 l1 where
      "trace w' = trace w @ t1" "console w' = console w @ l1" "rejections t1 = []"
      by auto
    then show ?thesis
      unfolding contained_one_def using r by auto
  qed
qed

lemma getHomeFeedPosts_one:
  assumes "getHomeFeedPosts page n w = (r, w')"
  shows "contained_one w r w' \<and> (\<exists>v. r = Inr v)"
proof -
  from assms obtain q where g: "getFollowingPosts w = (Inr q, w')"
    and r: "r = Inr (map_option (\<lambda>ps. slice ps ((page - 1) * page_size 3 n)
                       ((page - 1) * page_size 3 n + page_size 3 n)) q)"
    unfolding getHomeFeedPosts_def Let_def page_size_def
    using getFollowingPosts_one
    by (fastforce dest!: catch_log_cases await_cases simp: resolve_def)
  from getFollowingPosts_one [OF g] r show ?thesis
    unfolding contained_one_def by auto
qed

lemma observe_contained:
  assumes "contained w r v" and "observe (r, v) = (out, w')"
  shows "\<exists>t l. trace w' = trace w @ t \<and> console w' = console w @ l \<and>
           (rejections t \<noteq> [] \<longrightarrow>
              set (rejections t) \<inter> set l \<noteq> {} \<and> set (rejections t) \<subseteq> set l \<and>
              out = ReturnedUndefined)"
proof -
  from assms(1) obtain t l where
    t: "trace v = trace w @ t" and l: "console v = console w @ l"
    and s: "set (rejections t) \<subseteq> set l" and n: "rejections t \<noteq> [] \<longrightarrow> r = Inr None"
    unfolding contained_def by blast
  from assms(2) have v: "w' = v"
    by (auto simp: observe_def split: sum.splits option.splits)
  have "rejections t \<noteq> [] \<longrightarrow> out = ReturnedUndefined"
    using n assms(2) by (auto simp: observe_def)
  moreover have "rejections t \<noteq> [] \<longrightarrow> set (rejections t) \<inter> set l \<noteq> {}"
    using s by (cases "rejections t") auto
  ultimately show ?thesis
    using t l s v by blast
qed

lemma observe_swallows:
  assumes "swallows m" and "observe (m w) = (out, w')"
  shows "\<exists>t l. trace w' = trace w @ t \<and> console w' = console w @ l \<and>
           (rejections t \<noteq> [] \<longrightarrow>
              set (rejections t) \<inter> set l \<noteq> {} \<and> set (rejections t) \<subseteq> set l \<and>
              out = ReturnedUndefined)"
proof -
  obtain r v where m: "m w = (r, v)"
    by (cases "m w")
  with assms(1) have "contained w r v"
    unfolding swallows_def by blast
  from observe_contained [OF this] assms(2) m show ?thesis
    by simp
qed

lemma observe_contained_one:
  assumes "contained_one w r v" and "observe (r, v) = (out, w')"
  shows "\<exists>t l. trace w' = trace w @ t \<and> console w' = console w @ l \<and>
           (rejections t \<noteq> [] \<longrightarrow>
              set (rejections t) \<inter> set l \<noteq> {} \<and> out = ReturnedUndefined)"
proof -
  from assms(1) obtain t l where
    t: "trace v = trace w @ t" and l: "console v = console w @ l"
    and n: "rejections t \<noteq> [] \<longrightarrow> set (rejections t) \<inter> set l \<noteq> {} \<and> r = Inr None"
    unfolding contained_one_def by blast
  from assms(2) have v: "w' = v"
    by (auto simp: observe_def split: sum.splits option.splits)
  have "rejections t \<noteq> [] \<longrightarrow> out = ReturnedUndefined"
    using n assms(2) by (auto simp: observe_def)
  with n t l v show ?thesis by blast
qed

lemma observe_createUserAccount:
  assumes "observe_or_error (createUserAccount user w) = (out, w')"
  shows "\<exists>t l. trace w' = trace w @ t \<and> console w' = console w @ l \<and>
           (rejections t \<noteq> [] \<longrightarrow>
              set (rejections t) \<inter> set l \<noteq> {} \<and> set (rejections t) \<subseteq> set l \<and>
              (out = ReturnedUndefined \<or> out = ReturnedError (hd (rejections t))))"
proof -
  obtain r v where m: "createUserAccount user w = (r, v)"
    by (cases "createUserAccount user w")
  from createUserAccount_contained [OF m] obtain t l where
    t: "trace v = trace w @ t" and l: "console v = console w @ l"
    and s: "set (rejections t) \<subseteq> set l"
    and n: "rejections t \<noteq> [] \<longrightarrow>
              r = Inr (Value None) \<or> r = Inr (ErrorValue (hd (rejections t)))"
    by blast
  from assms m have v: "w' = v"
    by (auto simp: observe_or_error_def split: sum.splits option.splits or_error.splits)
  have "rejections t \<noteq> [] \<longrightarrow>
          (out = ReturnedUndefined \<or> out = ReturnedError (hd (rejections t)))"
    using n assms m by (auto simp: observe_or_error_def)
  moreover have "rejections t \<noteq> [] \<longrightarrow> set (rejections t) \<inter> set l \<noteq> {}"
    using s by (cases "rejections t") auto
  ultimately show ?thesis
    using t l s v by blast
qed

lemma following_rejected_run:
  "following_rejected =
     (ReturnedUndefined,
      feed_rejected_twice\<lparr>
        faults := [],
        trace := [(Account_get, Resolved),
                  (Databases_listDocuments userCollectionId [Query_equal ''accountId'' ''a1''],
                   Resolved),
                  (Databases_listDocuments postCollectionId [Query_equal ''creator'' ''u2''],
                   Rejected (AppwriteException ''timeout'')),
                  (Databases_listDocuments postCollectionId [Query_equal ''creator'' ''u1''],
                   Rejected (AppwriteException ''network''))],
        console := [AppwriteException ''network'']\<rparr>)"
  by (simp add: following_rejected_def feed_rejected_twice_def observe_def read_defs js_defs
      db_defs sdk_def ex_defs Let_def first_def)

text \<open>
  Claim C4, as stated, fails twice. When \<open>account.create\<close> is rejected, the \<open>catch\<close> of
  \<open>createUserAccount\<close> prints the error and returns it, so the error is the value the
  caller receives. And when two list queries of \<open>getFollowingPosts\<close> are rejected,
  \<open>Promise.all\<close> passes on the one that arrives first: here the two rejections are
  \<open>timeout\<close> and \<open>network\<close>, in the order of the calls, and the console holds
  \<open>network\<close> only.
\<close>

theorem remote_errors_are_caught_counterexample:
  "fst (run_api (CreateUserAccount example_new_user)
          (example_world [Reject (AppwriteException ''network'')])) =
     ReturnedError (AppwriteException ''network'') \<and>
   fst (run_api GetFollowingPosts feed_rejected_twice) = ReturnedUndefined \<and>
   rejections (trace (snd (run_api GetFollowingPosts feed_rejected_twice))) =
     [AppwriteException ''timeout'', AppwriteException ''network''] \<and>
   console (snd (run_api GetFollowingPosts feed_rejected_twice)) =
     [AppwriteException ''network'']"
proof -
  have "fst (run_api (CreateUserAccount example_new_user)
          (example_world [Reject (AppwriteException ''network'')])) =
     ReturnedError (AppwriteException ''network'')"
    by (simp add: createUserAccount_def observe_or_error_def account_create_def js_defs sdk_def
        ex_defs Let_def)
  then show ?thesis
    using following_rejected_run [unfolded following_rejected_def] by simp
qed

text \<open>
  Claim C4, amended. For every function of the access layer and every run of it, the
  trace and the console only grow. If a call of the SDK was rejected during the run,
  a rejection of the run was printed, the promise of the function is not rejected, and
  the function returns \<open>undefined\<close>; only \<open>createUserAccount\<close> may instead return the
  error it caught, which is then the first rejection of its run. Every rejection was
  printed unless the function awaits \<open>Promise.all\<close> (\<open>getFollowingPosts\<close>,
  \<open>getHomeFeedPosts\<close>), which passes on one rejection of the calls it waits for, the one
  that arrives first, and drops the others.
\<close>

theorem remote_errors_are_caught:
  assumes "run_api call w = (out, w')"
  shows "\<exists>t l. trace w' = trace w @ t \<and> console w' = console w @ l \<and>
           (rejections t \<noteq> [] \<longrightarrow>
              set (rejections t) \<inter> set l \<noteq> {} \<and>
              (\<not> awaits_Promise_all call \<longrightarrow> set (rejections t) \<subseteq> set l) \<and>
              (\<forall>e. out \<noteq> Thrown e) \<and>
              (if returns_caught_error call
               then out = ReturnedUndefined \<or> out = ReturnedError (hd (rejections t))
               else out = ReturnedUndefined))"
proof (cases call)
  case (CreateUserAccount user)
  with observe_createUserAccount [of user w out w'] assms show ?thesis by auto
next
  case (SaveUserToDB user)
  with observe_swallows [OF swallows_saveUserToDB, of user w out w'] assms show ?thesis by auto
next
  case (SignInAccount mail password)
  with observe_swallows [OF swallows_signInAccount, of mail password w out w'] assms
  show ?thesis by auto
next
  case SignOutAccount
  with observe_swallows [OF swallows_signOutAccount, of w out w'] assms show ?thesis by auto
next
  case (CreatePost post)
  with observe_swallows [OF swallows_createPost, of post w out w'] assms show ?thesis by auto
next
  case GetFollowingPosts
  obtain r v where m: "getFollowingPosts w = (r, v)"
    by (cases "getFollowingPosts w")
  from getFollowingPosts_one [OF m] have "contained_one w r v" by simp
  from observe_contained_one [OF this, of out w'] assms m GetFollowingPosts
  show ?thesis by auto
next
  case (GetHomeFeedPosts page pageSize)
  obtain r v where m: "getHomeFeedPosts page pageSize w = (r, v)"
    by (cases "getHomeFeedPosts page pageSize w")
  from getHomeFeedPosts_one [OF m] have "contained_one w r v" by simp
  from observe_contained_one [OF this, of out w'] assms m GetHomeFeedPosts
  show ?thesis by auto
next
  case GetAllPosts
  with observe_swallows [OF swallows_getAllPosts, of w out w'] assms show ?thesis by auto
next
  case (GetExplorePosts page pageSize)
  with observe_swallows [OF swallows_getExplorePosts, of page pageSize w out w'] assms
  show ?thesis by auto
next
  case (SearchPosts searchTerm)
  with observe_swallows [OF swallows_searchPosts, of searchTerm w out w'] assms
  show ?thesis by auto
next
  case (GetPostById postId)
  obtain r v where m: "getPostById postId w = (r, v)"
    by (cases "getPostById postId w")
  from observe_contained [OF contained_getPostById [OF m], of out w'] assms m GetPostById
  show ?thesis by auto
next
  case (GetUserPosts userId)
  with observe_swallows [OF swallows_getUserPosts, of userId w out w'] assms
  show ?thesis by auto
next
  case (GetUserProfilePosts userId page pageSize)
  with observe_swallows [OF swallows_getUserProfilePosts, of userId page pageSize w out w'] assms
  show ?thesis by auto
next
  case (LikePost postId likesArray)
  with observe_swallows [OF swallows_likePost, of postId likesArray w out w'] assms
  show ?thesis by auto
next
  case (SavePost postId userId)
  with observe_swallows [OF swallows_savePost, of postId userId w out w'] assms
  show ?thesis by auto
next
  case (DeleteSavedPost savedRecordId)
  with observe_swallows [OF swallows_deleteSavedPost, of savedRecordId w out w'] assms
  show ?thesis by auto
next
  case (UpdatePost post)
  with observe_swallows [OF swallows_updatePost, of post w out w'] assms show ?thesis by auto
next
  case (DeletePost postId imageId)
  obtain r v where m: "deletePost postId imageId w = (r, v)"
    by (cases "deletePost postId imageId w")
  from observe_contained [OF contained_deletePost [OF m], of out w'] assms m DeletePost
  show ?thesis by auto
next
  case (UploadFile f)
  with observe_swallows [OF swallows_uploadFile, of f w out w'] assms show ?thesis by auto
next
  case (GetFilePreview fileId)
  with observe_swallows [OF swallows_getFilePreview, of fileId w out w'] assms
  show ?thesis by auto
next
  case (DeleteFile fileId)
  with observe_swallows [OF swallows_deleteFile, of fileId w out w'] assms show ?thesis by auto
next
  case GetCurrentUser
  with observe_swallows [OF swallows_getCurrentUser, of w out w'] assms show ?thesis by auto
next
  case (GetUserById userId)
  with observe_swallows [OF swallows_getUserById, of userId w out w'] assms show ?thesis by auto
next
  case (GetUsers limit)
  with observe_swallows [OF swallows_getUsers, of limit w out w'] assms show ?thesis by auto
next
  case (GetAllUsers page pageSize)
  with observe_swallows [OF swallows_getAllUsers, of page pageSize w out w'] assms
  show ?thesis by auto
next
  case (UpdateUser user)
  with observe_swallows [OF swallows_updateUser, of user w out w'] assms show ?thesis by auto
next
  case (FollowUser userId followedUserId)
  with observe_swallows [OF swallows_followUser, of userId followedUserId w out w'] assms
  show ?thesis by auto
next
  case (UnfollowUser followedUserRecord)
  with observe_swallows [OF swallows_unfollowUser, of followedUserRecord w out w'] assms
  show ?thesis by auto
qed

lemma like_rejected_run:
  "like_rejected =
     (ReturnedUndefined,
      (example_world [])\<lparr>
        trace := [(Databases_updateDocument postCollectionId ''p1'' (LikesData [''u1'', ''u2'']),
                   Rejected (AppwriteException ''network''))],
        console := [AppwriteException ''network'']\<rparr>)"
  by (simp add: like_rejected_def likePost_def observe_def databases_updateDocument_def js_defs
      sdk_def example_world_def Let_def)

theorem remote_errors_are_caught_witness:
  "run_api (LikePost ''p1'' [''u1'', ''u2''])
       (example_world [Reject (AppwriteException ''network'')]) =
     (ReturnedUndefined, snd like_rejected) \<and>
   rejections (trace (snd like_rejected)) = [AppwriteException ''network''] \<and>
   (\<exists>t l. trace (snd like_rejected) = [] @ t \<and> console (snd like_rejected) = [] @ l \<and>
      rejections t \<noteq> [] \<and> set (rejections t) \<inter> set l \<noteq> {} \<and>
      set (rejections t) \<subseteq> set l) \<and>
   run_api GetFollowingPosts feed_rejected_twice =
     (ReturnedUndefined, snd following_rejected) \<and>
   rejections (trace (snd following_rejected)) =
     [AppwriteException ''timeout'', AppwriteException ''network''] \<and>
   (\<exists>t l. trace (snd following_rejected) = [] @ t \<and>
      console (snd following_rejected) = [] @ l \<and>
      rejections t \<noteq> [] \<and> set (rejections t) \<inter> set l \<noteq> {})"
proof -
  have r: "run_api (LikePost ''p1'' [''u1'', ''u2''])
       (example_world [Reject (AppwriteException ''network'')]) =
     (ReturnedUndefined, snd like_rejected)"
    using like_rejected_run by (simp add: like_rejected_def)
  have j: "rejections (trace (snd like_rejected)) = [AppwriteException ''network'']"
    by (simp add: like_rejected_run)
  from remote_errors_are_caught [OF r] obtain t l where
    t: "trace (snd like_rejected) =
          trace (example_world [Reject (AppwriteException ''network'')]) @ t"
    and l: "console (snd like_rejected) =
          console (example_world [Reject (AppwriteException ''network'')]) @ l"
    and h: "rejections t \<noteq> [] \<longrightarrow>
              set (rejections t) \<inter> set l \<noteq> {} \<and> set (rejections t) \<subseteq> set l"
    by auto
  from t have t': "trace (snd like_rejected) = t"
    by (simp add: example_world_def)
  from l have l': "console (snd like_rejected) = l"
    by (simp add: example_world_def)
  have jt: "rejections t = [AppwriteException ''network'']"
    using j unfolding t' .
  with h have hl: "set (rejections t) \<inter> set l \<noteq> {}" and hs: "set (rejections t) \<subseteq> set l"
    by simp_all
  have 1: "\<exists>t l. trace (snd like_rejected) = [] @ t \<and> console (snd like_rejected) = [] @ l \<and>
      rejections t \<noteq> [] \<and> set (rejections t) \<inter> set l \<noteq> {} \<and>
      set (rejections t) \<subseteq> set l"
  proof (intro exI conjI)
    show "trace (snd like_rejected) = [] @ t" using t' by simp
    show "console (snd like_rejected) = [] @ l" using l' by simp
    show "rejections t \<noteq> []" using jt by simp
    show "set (rejections t) \<inter> set l \<noteq> {}" by (rule hl)
    show "set (rejections t) \<subseteq> set l" by (rule hs)
  qed
  have r2: "run_api GetFollowingPosts feed_rejected_twice =
     (ReturnedUndefined, snd following_rejected)"
    using following_rejected_run by (simp add: following_rejected_def)
  have j2: "rejections (trace (snd following_rejected)) =
     [AppwriteException ''timeout'', AppwriteException ''network'']"
    by (simp add: following_rejected_run)
  from remote_errors_are_caught [OF r2] obtain t2 l2 where
    t2: "trace (snd following_rejected) = trace feed_rejected_twice @ t2"
    and l2: "console (snd following_rejected) = console feed_rejected_twice @ l2"
    and h2: "rejections t2 \<noteq> [] \<longrightarrow> set (rejections t2) \<inter> set l2 \<noteq> {}"
    by auto
  from t2 have t2': "trace (snd following_rejected) = t2"
    by (simp add: feed_rejected_twice_def example_world_def)
  from l2 have l2': "console (snd following_rejected) = l2"
    by (simp add: feed_rejected_twice_def example_world_def)
  have jt2: "rejections t2 = [AppwriteException ''timeout'', AppwriteException ''network'']"
    using j2 unfolding t2' .
  with h2 have hl2: "set (rejections t2) \<inter> set l2 \<noteq> {}"
    by simp
  have 2: "\<exists>t l. trace (snd following_rejected) = [] @ t \<and>
      console (snd following_rejected) = [] @ l \<and>
      rejections t \<noteq> [] \<and> set (rejections t) \<inter> set l \<noteq> {}"
  proof (intro exI conjI)
    show "trace (snd following_rejected) = [] @ t2" using t2' by simp
    show "console (snd following_rejected) = [] @ l2" using l2' by simp
    show "rejections t2 \<noteq> []" using jt2 by simp
    show "set (rejections t2) \<inter> set l2 \<noteq> {}" by (rule hl2)
  qed
  from r j 1 r2 j2 2 show ?thesis
    by blast
qed

end
